theory Spec2Isabelle
  imports Main "HOL-Library.Multiset" "HOL-Library.Log_Nat"
begin

section \<open>Data model of the operator node (node.go)\<close>

text \<open>
  Go's \<open>error\<close> values. \<open>ErrBatchAlreadyExist\<close> is the sentinel the store returns for a
  batch that is already present; \<open>Wrap m e\<close> is \<open>fmt.Errorf(m + "%w", e)\<close>. A Go
  \<open>error\<close> that may be nil is an \<open>error option\<close>, \<open>None\<close> being nil.
\<close>

datatype error = ErrBatchAlreadyExist | DeadlineExceeded | Err string | Wrap string error

text \<open>\<open>errors.Is\<close>: the target is the error itself or is wrapped in it.\<close>

fun errors_Is :: "error \<Rightarrow> error \<Rightarrow> bool" where
  "errors_Is (Wrap m e) target = (Wrap m e = target \<or> errors_Is e target)"
| "errors_Is e target = (e = target)"

type_synonym hash = string
type_synonym Signature = string
type_synonym OperatorID = string
type_synonym OperatorState = nat
type_synonym Blob = string

text \<open>
  \<open>context.Context\<close>: the instant at which a collaborator is called and whether the
  context is cancelled. Collaborators that take a context may answer differently at
  different instants.
\<close>

record ctx =
  now :: nat
  cancelled :: bool

text \<open>
  \<open>core.BatchHeader\<close>. The type is declared in package core; the result of its method
  \<open>GetBatchHeaderHash\<close> (a deterministic function of the header, which can fail) is
  carried as a field.
\<close>

record BatchHeader =
  ReferenceBlockNumber :: nat
  BatchRoot :: string
  GetBatchHeaderHash :: "error + hash"

record BlobHeader =
  EncodedSizeAllQuorums :: int

record BlobMessage =
  BlobHeader :: BlobHeader
  Bundles :: string

text \<open>
  The fields of \<open>Config\<close> (declared in config.go) that node.go reads.
  \<open>ExpirationPollIntervalSec\<close> is an unsigned number of seconds;
  \<open>PubIPCheckInterval\<close> is a duration, counted in the unit of \<open>now\<close>.
\<close>

record Config =
  ID :: OperatorID
  Hostname :: string
  DispersalPort :: string
  RetrievalPort :: string
  NumBatchValidators :: int
  ExpirationPollIntervalSec :: nat
  PubIPCheckInterval :: nat
  EnableMetrics :: bool
  EnableNodeApi :: bool
  RegisterNodeAtStart :: bool

subsection \<open>The chunk store\<close>

text \<open>
  Modelled from the spec: the type \<open>Store\<close> with \<open>StoreBatch\<close> and \<open>DeleteKeys\<close>
  (store.go is not among the sources). The spec, section 4.3: StoreBatch is an atomic
  multi-key write of the batch header, the per-blob headers and the chunks, and returns
  the distinguished already-exists outcome, with no keys, when the header hash is
  already present; DeleteKeys is a best-effort bulk delete that reports success as a
  boolean. The rows of a batch are keyed by its header hash; \<open>write_fault\<close> is the
  genuine failure the next write meets (if any) and \<open>undeletable\<close> the keys whose
  deletion fails.
\<close>

datatype key = BatchHeaderKey hash | BlobHeaderKey hash nat | BlobKey hash nat

datatype row = HeaderRow nat string | BlobHeaderRow int | ChunkRow string Blob

record Store =
  db :: "key \<rightharpoonup> row"
  write_fault :: "error option"
  undeletable :: "key list"

fun blob_rows :: "hash \<Rightarrow> nat \<Rightarrow> BlobMessage list \<Rightarrow> Blob list \<Rightarrow> (key \<times> row) list" where
  "blob_rows h i [] raws = []"
| "blob_rows h i (b # bs) raws =
     (BlobHeaderKey h i, BlobHeaderRow (EncodedSizeAllQuorums (BlobHeader b)))
     # (BlobKey h i, ChunkRow (Bundles b) (case raws of [] \<Rightarrow> [] | r # _ \<Rightarrow> r))
     # blob_rows h (Suc i) bs (tl raws)"

definition batch_rows :: "hash \<Rightarrow> BatchHeader \<Rightarrow> BlobMessage list \<Rightarrow> Blob list \<Rightarrow> (key \<times> row) list" where
  "batch_rows h header blobs rawBlobs =
     (BatchHeaderKey h, HeaderRow (ReferenceBlockNumber header) (BatchRoot header))
     # blob_rows h 0 blobs rawBlobs"

definition StoreBatch ::
  "Store \<Rightarrow> ctx \<Rightarrow> BatchHeader \<Rightarrow> BlobMessage list \<Rightarrow> Blob list \<Rightarrow> (error + key list) \<times> Store" where
  "StoreBatch s c header blobs rawBlobs =
     (case GetBatchHeaderHash header of
        Inl e \<Rightarrow> (Inl e, s)
      | Inr h \<Rightarrow>
          if db s (BatchHeaderKey h) \<noteq> None then (Inl ErrBatchAlreadyExist, s)
          else (case write_fault s of
                  Some e \<Rightarrow> (Inl e, s)
                | None \<Rightarrow>
                    (let rows = batch_rows h header blobs rawBlobs
                     in (Inr (map fst rows), s\<lparr>db := db s ++ map_of rows\<rparr>))))"

definition DeleteKeys :: "Store \<Rightarrow> ctx \<Rightarrow> key list \<Rightarrow> bool \<times> Store" where
  "DeleteKeys s c ks =
     (list_all (\<lambda>k. k \<notin> set (undeletable s)) ks,
      s\<lparr>db := (\<lambda>k. if k \<in> set ks \<and> k \<notin> set (undeletable s) then None else db s k)\<rparr>)"

definition retrievable :: "Store \<Rightarrow> key \<Rightarrow> bool" where
  "retrievable s k = (db s k \<noteq> None)"

subsection \<open>The node\<close>

datatype level = Trace | Debug | Info | Error

datatype metric =
    AcceptBatches string int
  | ObserveLatency string string
  | RecordSocketAddressChange
  | MetricsStart

datatype goroutine = ExpireLoop | CheckRegisteredNodeIpOnChain | CheckCurrentNodeIp

text \<open>
  What is recorded of a run, in the order in which it happens: a \<open>go\<close> statement
  starting a goroutine, and an assignment to \<open>CurrentSocket\<close> with the state of the
  mutex at that moment and the value assigned.
\<close>

datatype action = Go goroutine | SocketWrite bool string

text \<open>
  The struct \<open>Node\<close>. The collaborators are the functions the node calls on them:
  \<open>KeyPair\<close> is \<open>SignMessage\<close>, \<open>ChainState\<close> is \<open>GetOperatorStateByOperator\<close>,
  \<open>Validator\<close> is \<open>ValidateBlob\<close>, \<open>Transactor\<close> is \<open>UpdateOperatorSocket\<close>,
  \<open>PubIPProvider\<close> is \<open>PublicIPAddress\<close>, \<open>OperatorSocketsFilterer\<close> is the error
  of \<open>WatchOperatorSocketUpdate\<close> (nil when the subscription is made),
  \<open>RegisterOperator\<close> is the outcome of the registration at start, and
  \<open>DeleteExpiredEntries\<close> is the result of the store's expiration scan for a given
  time and budget (the rows it removes are left out). \<open>NodeApi\<close> tells whether the node API was started. \<open>Logger\<close> and
  \<open>Metrics\<close> collect what was logged and observed (messages without their key-value
  arguments, latencies without the measured duration). \<open>mu\<close> is true while the running
  function holds the mutex, and \<open>trace\<close> records, in order, every goroutine started
  and every assignment to \<open>CurrentSocket\<close> together with the value of \<open>mu\<close> at that
  moment. \<open>gc_calls\<close> lists the arguments of every call of \<open>DeleteExpiredEntries\<close>.
\<close>

record Node =
  Config :: Config
  Logger :: "(level \<times> string) list"
  KeyPair :: "hash \<Rightarrow> Signature"
  Metrics :: "metric list"
  Store :: Store
  ChainState :: "ctx \<Rightarrow> nat \<Rightarrow> OperatorID \<Rightarrow> error + OperatorState"
  Validator :: "BlobMessage \<Rightarrow> OperatorState \<Rightarrow> error option"
  Transactor :: "ctx \<Rightarrow> string \<Rightarrow> error option"
  PubIPProvider :: "ctx \<Rightarrow> error + string"
  OperatorSocketsFilterer :: "ctx \<Rightarrow> OperatorID \<Rightarrow> error option"
  RegisterOperator :: "ctx \<Rightarrow> string \<Rightarrow> error option"
  DeleteExpiredEntries :: "nat \<Rightarrow> nat \<Rightarrow> nat \<times> error option"
  NodeApi :: bool
  mu :: bool
  CurrentSocket :: string
  trace :: "action list"
  gc_calls :: "(nat \<times> nat) list"

definition logmsg :: "level \<Rightarrow> string \<Rightarrow> Node \<Rightarrow> Node" where
  "logmsg l m n = n\<lparr>Logger := Logger n @ [(l, m)]\<rparr>"

definition observe :: "metric \<Rightarrow> Node \<Rightarrow> Node" where
  "observe m n = n\<lparr>Metrics := Metrics n @ [m]\<rparr>"

section \<open>ValidateBatch: the validation fan-out\<close>

text \<open>
  The jobs run on a worker pool, so their results reach the channel \<open>out\<close> in an order
  the code does not fix. A schedule is a list of picks: each pick chooses which of the
  jobs still running reports next (when the picks run out, the rest report in
  submission order). Every schedule yields a permutation of the submitted jobs. The
  pool of \<open>NumBatchValidators\<close> workers bounds how many jobs run at once, which can
  only exclude some of these orders.
\<close>

function arrival :: "nat list \<Rightarrow> 'a list \<Rightarrow> 'a list" where
  "arrival ps [] = []"
| "arrival [] (x # xs) = x # xs"
| "arrival (p # ps) (x # xs) =
     (let i = p mod Suc (length xs)
      in ((x # xs) ! i) # arrival ps (take i (x # xs) @ drop (Suc i) (x # xs)))"
  by pat_completeness auto
termination
  by (relation "measure (\<lambda>(ps, xs). length xs)") auto

text \<open>\<open>validateBlob\<close>: the value the job of one blob sends on \<open>out\<close>.\<close>

definition validateBlob :: "Node \<Rightarrow> BlobMessage \<Rightarrow> OperatorState \<Rightarrow> error option" where
  "validateBlob n blob operatorState =
     (case Validator n blob operatorState of Some e \<Rightarrow> Some e | None \<Rightarrow> None)"

text \<open>The job submitted to the pool for one blob.\<close>

definition job :: "Node \<Rightarrow> BlobMessage \<times> OperatorState \<Rightarrow> error option" where
  "job n = (\<lambda>(blob, st). validateBlob n blob st)"

text \<open>
  The collection loop: one receive per blob, returning at the first non-nil result.
  The second component is what is left in \<open>out\<close>, never received.
\<close>

fun collect :: "error option list \<Rightarrow> error option \<times> error option list" where
  "collect [] = (None, [])"
| "collect (r # out) = (case r of Some e \<Rightarrow> (Some e, out) | None \<Rightarrow> collect out)"

text \<open>The jobs submitted to the pool: one per blob, after the operator state is fetched.\<close>

definition submitted :: "Node \<Rightarrow> ctx \<Rightarrow> BatchHeader \<Rightarrow> BlobMessage list \<Rightarrow> (BlobMessage \<times> OperatorState) list" where
  "submitted n c header blobs =
     (case ChainState n c (ReferenceBlockNumber header) (ID (Config n)) of
        Inl e \<Rightarrow> []
      | Inr operatorState \<Rightarrow> map (\<lambda>blob. (blob, operatorState)) blobs)"

definition ValidateBatch ::
  "Node \<Rightarrow> nat list \<Rightarrow> ctx \<Rightarrow> BatchHeader \<Rightarrow> BlobMessage list \<Rightarrow> error option" where
  "ValidateBatch n sched c header blobs =
     (case ChainState n c (ReferenceBlockNumber header) (ID (Config n)) of
        Inl e \<Rightarrow> Some e
      | Inr operatorState \<Rightarrow>
          fst (collect (map (job n) (arrival sched (submitted n c header blobs)))))"

section \<open>ProcessBatch\<close>

record storeResult =
  store_err :: "error option"
  store_keys :: "key list option"

text \<open>
  The goroutine that stores the batch, up to its send on \<open>storeChan\<close>. It shares with
  the validation only \<open>Metrics\<close> and \<open>Logger\<close>; it is run here before the validation.
\<close>

definition store_goroutine ::
  "Node \<Rightarrow> ctx \<Rightarrow> BatchHeader \<Rightarrow> BlobMessage list \<Rightarrow> Blob list \<Rightarrow> int \<Rightarrow> storeResult \<times> Node" where
  "store_goroutine n c header blobs rawBlobs batchSize =
     (let (r, s) = StoreBatch (Store n) c header blobs rawBlobs;
          n1 = n\<lparr>Store := s\<rparr>
      in case r of
           Inl e \<Rightarrow>
             if e = ErrBatchAlreadyExist
             then (\<lparr>store_err = None, store_keys = None\<rparr>, n1)
             else (\<lparr>store_err = Some (Wrap ''failed to store batch: '' e), store_keys = None\<rparr>, n1)
         | Inr ks \<Rightarrow>
             (\<lparr>store_err = None, store_keys = Some ks\<rparr>,
              logmsg Debug ''Store batch took''
                (observe (ObserveLatency ''StoreChunks'' ''stored'')
                  (observe (AcceptBatches ''stored'' batchSize) n1))))"

text \<open>
  \<open>ProcessBatch\<close> returns the pair of the Go function, a signature and an error that
  can each be nil, and the node as the call leaves it. \<open>sched\<close> is the schedule of the
  validation jobs. The variable \<open>err\<close> is the one of the source: assigned by
  \<open>ValidateBatch\<close>, and returned where the source returns it.
\<close>

definition ProcessBatch ::
  "Node \<Rightarrow> nat list \<Rightarrow> ctx \<Rightarrow> BatchHeader \<Rightarrow> BlobMessage list \<Rightarrow> Blob list
     \<Rightarrow> (Signature option \<times> error option) \<times> Node" where
  "ProcessBatch n sched c header blobs rawBlobs =
     (let batchSize = sum_list (map (\<lambda>blob. EncodedSizeAllQuorums (BlobHeader blob)) blobs);
          n0 = observe (AcceptBatches ''received'' batchSize) n
      in case GetBatchHeaderHash header of
           Inl e \<Rightarrow> ((None, Some e), n0)
         | Inr batchHeaderHash \<Rightarrow>
             (let (result, n1) = store_goroutine n0 c header blobs rawBlobs batchSize;
                  err = ValidateBatch n1 sched c header blobs
              in case err of
                   Some e \<Rightarrow>
                     (let n2 = (case store_keys result of
                                  None \<Rightarrow> n1
                                | Some ks \<Rightarrow>
                                    (let (ok, s) = DeleteKeys (Store n1) c ks;
                                         n1' = n1\<lparr>Store := s\<rparr>
                                     in if \<not> ok
                                        then logmsg Error ''Failed to delete the invalid batch that should be rolled back'' n1'
                                        else n1'))
                      in ((None, Some (Wrap ''failed to validate batch: '' e)), n2))
                 | None \<Rightarrow>
                     (let n2 = logmsg Debug ''Validate batch took''
                                 (observe (ObserveLatency ''StoreChunks'' ''validated'')
                                   (observe (AcceptBatches ''validated'' batchSize) n1))
                      in if store_err result \<noteq> None then ((None, err), n2)
                         else
                           (let sig = KeyPair n2 batchHeaderHash;
                                n3 = logmsg Debug ''Exiting process batch''
                                       (logmsg Info ''StoreChunks succeeded''
                                         (logmsg Debug ''Sign batch took''
                                           (observe (ObserveLatency ''StoreChunks'' ''signed'')
                                             (observe (AcceptBatches ''signed'' batchSize)
                                               (logmsg Trace ''Signed batch header hash'' n2)))))
                            in ((Some sig, None), n3)))))"

section \<open>The socket reconciler\<close>

text \<open>
  Modelled from the spec: \<open>core.MakeOperatorSocket\<close> (package core is not among the
  sources). The spec, section 3: a socket is a string encoding of the host plus the
  dispersal and retrieval ports.
\<close>

definition MakeOperatorSocket :: "string \<Rightarrow> string \<Rightarrow> string \<Rightarrow> string" where
  "MakeOperatorSocket nodeIP dispersalPort retrievalPort =
     nodeIP @ '':'' @ dispersalPort @ '';'' @ retrievalPort"

text \<open>The assignment \<open>n.CurrentSocket = s\<close>, recorded with the state of the mutex.\<close>

definition set_CurrentSocket :: "string \<Rightarrow> Node \<Rightarrow> Node" where
  "set_CurrentSocket s n = n\<lparr>CurrentSocket := s, trace := trace n @ [SocketWrite (mu n) s]\<rparr>"

text \<open>The statement \<open>go f()\<close>: the goroutine is started.\<close>

definition go :: "goroutine \<Rightarrow> Node \<Rightarrow> Node" where
  "go g n = n\<lparr>trace := trace n @ [Go g]\<rparr>"

definition Lock :: "Node \<Rightarrow> Node" where
  "Lock n = n\<lparr>mu := True\<rparr>"

definition Unlock :: "Node \<Rightarrow> Node" where
  "Unlock n = n\<lparr>mu := False\<rparr>"

definition update_failed_msg :: string where
  "update_failed_msg = ''failed to update operator'' @ [CHR 0x27] @ ''s socket''"

definition updateSocketAddress :: "Node \<Rightarrow> ctx \<Rightarrow> string \<Rightarrow> Node" where
  "updateSocketAddress n c newSocketAddr =
     (let n1 = Lock n
      in if newSocketAddr = CurrentSocket n1 then Unlock n1
         else (case Transactor n1 c newSocketAddr of
                 Some e \<Rightarrow> Unlock (logmsg Error update_failed_msg n1)
               | None \<Rightarrow>
                   Unlock (set_CurrentSocket newSocketAddr
                     (observe RecordSocketAddressChange (logmsg Info ''Socket update'' n1)))))"

text \<open>
  \<open>checkRegisteredNodeIpOnChain\<close>: the loop over what the select receives, a socket
  from the subscription or the cancellation of the context. A list that ends without
  \<open>CtxDone\<close> is a run that is still waiting in the select.
\<close>

datatype chain_event = CtxDone | SocketUpdate string

fun watch_loop :: "Node \<Rightarrow> chain_event list \<Rightarrow> Node" where
  "watch_loop n [] = n"
| "watch_loop n (CtxDone # evs) = n"
| "watch_loop n (SocketUpdate socket # evs) =
     (let n1 = Lock n;
          n2 = (if socket \<noteq> CurrentSocket n1
                then set_CurrentSocket socket
                       (logmsg Info ''Detected socket registered onchain which is different than the socket kept at the DA Node'' n1)
                else n1)
      in watch_loop (Unlock n2) evs)"

definition checkRegisteredNodeIpOnChain :: "Node \<Rightarrow> ctx \<Rightarrow> chain_event list \<Rightarrow> Node" where
  "checkRegisteredNodeIpOnChain n c evs =
     (case OperatorSocketsFilterer n c (ID (Config n)) of
        Some e \<Rightarrow> n
      | None \<Rightarrow> watch_loop n evs)"

definition socketAddress :: "Node \<Rightarrow> ctx \<Rightarrow> error + string" where
  "socketAddress n c =
     (case PubIPProvider n c of
        Inl e \<Rightarrow> Inl (Wrap ''failed to get public ip address from IP provider: '' e)
      | Inr ip \<Rightarrow> Inr (MakeOperatorSocket ip (DispersalPort (Config n)) (RetrievalPort (Config n))))"

text \<open>
  Go's \<open>time.Timer\<close>: \<open>time.NewTimer(d)\<close> sends the time on its channel once, when
  \<open>d\<close> has elapsed, and never again unless it is reset. \<open>timer_recv\<close> is a receive on
  the channel \<open>t.C\<close> at a given instant: \<open>None\<close> when nothing is there to receive.
\<close>

datatype Timer = Pending nat | Fired

definition NewTimer :: "nat \<Rightarrow> nat \<Rightarrow> Timer" where
  "NewTimer t0 d = Pending (t0 + d)"

fun timer_recv :: "Timer \<Rightarrow> nat \<Rightarrow> Timer option" where
  "timer_recv (Pending t) instant = (if t \<le> instant then Some Fired else None)"
| "timer_recv Fired instant = None"

text \<open>
  \<open>checkCurrentNodeIp\<close>: the loop, run over the instants at which the goroutine is
  scheduled. Each instant carries the context (the time, and whether it is cancelled)
  and the choice the select makes when both of its cases are ready. After the body the
  loop selects again at the same instant, where only the cancellation can be ready.
\<close>

definition poll_body :: "Node \<Rightarrow> ctx \<Rightarrow> Node" where
  "poll_body n c =
     (case socketAddress n c of
        Inl e \<Rightarrow> logmsg Error ''failed to get socket address'' n
      | Inr newSocketAddr \<Rightarrow> updateSocketAddress n c newSocketAddr)"

fun poll_loop :: "Node \<Rightarrow> Timer \<Rightarrow> (ctx \<times> bool) list \<Rightarrow> Node" where
  "poll_loop n t [] = n"
| "poll_loop n t ((c, prefer_done) # rest) =
     (case timer_recv t (now c) of
        None \<Rightarrow> if cancelled c then n else poll_loop n t rest
      | Some t' \<Rightarrow>
          if cancelled c \<and> prefer_done then n
          else (let n' = poll_body n c
                in if cancelled c then n' else poll_loop n' t' rest))"

definition checkCurrentNodeIp :: "Node \<Rightarrow> ctx \<Rightarrow> (ctx \<times> bool) list \<Rightarrow> Node" where
  "checkCurrentNodeIp n c timeline =
     poll_loop n (NewTimer (now c) (PubIPCheckInterval (Config n))) timeline"

section \<open>Start\<close>

definition Start_finish :: "Node \<Rightarrow> string \<Rightarrow> error option \<times> Node" where
  "Start_finish n socket =
     (let n1 = set_CurrentSocket socket n
      in if PubIPCheckInterval (Config n1) > 0
         then (None, go CheckCurrentNodeIp (go CheckRegisteredNodeIpOnChain n1))
         else (None, n1))"

definition Start :: "Node \<Rightarrow> ctx \<Rightarrow> error option \<times> Node" where
  "Start n c =
     (let n1 = (if EnableMetrics (Config n)
                then logmsg Info ''Enabled metrics'' (observe MetricsStart n) else n);
          n2 = (if EnableNodeApi (Config n1)
                then logmsg Info ''Enabled node api'' (n1\<lparr>NodeApi := True\<rparr>) else n1);
          n3 = go ExpireLoop n2;
          socket = MakeOperatorSocket (Hostname (Config n3)) (DispersalPort (Config n3))
                     (RetrievalPort (Config n3));
          n4 = logmsg Info ''Registering node with socket'' n3
      in if RegisterNodeAtStart (Config n4)
         then (let n5 = logmsg Debug ''Registering node on chain with the following parameters:'' n4;
                   socket' = MakeOperatorSocket (Hostname (Config n5)) (DispersalPort (Config n5))
                               (RetrievalPort (Config n5))
               in case RegisterOperator n5 c socket' of
                    Some e \<Rightarrow> (Some (Wrap ''failed to register the operator: '' e), n5)
                  | None \<Rightarrow> Start_finish n5 socket)
         else Start_finish n4 socket)"

section \<open>The expiration sweeper\<close>

text \<open>
  A finite non-negative \<open>float64\<close>: \<open>F64 m e\<close> is the number \<open>m / 2 ^ e\<close>, whose
  significand \<open>m\<close> has at most 53 significant bits. \<open>round53\<close> is the rounding of IEEE
  754 binary64 (to nearest, ties to even) of a significand to 53 bits; the values of this
  computation are far from the subnormal and the overflow range.
\<close>

datatype float64 = F64 nat nat

definition round53 :: "nat \<Rightarrow> nat" where
  "round53 m =
     (if m < 2 ^ 53 then m
      else (let s = floorlog 2 m - 53;
                q = m div 2 ^ s;
                r = m mod 2 ^ s;
                h = 2 ^ (s - 1)
            in (if r < h \<or> (r = h \<and> even q) then q else q + 1) * 2 ^ s))"

text \<open>The conversion \<open>float64(x)\<close> of an unsigned integer.\<close>

definition float64_of_uint64 :: "nat \<Rightarrow> float64" where
  "float64_of_uint64 x = F64 (round53 x) 0"

fun float64_mul :: "float64 \<Rightarrow> float64 \<Rightarrow> float64" where
  "float64_mul (F64 a i) (F64 b j) = F64 (round53 (a * b)) (i + j)"

fun float64_less :: "float64 \<Rightarrow> float64 \<Rightarrow> bool" where
  "float64_less (F64 a i) (F64 b j) = (a * 2 ^ j < b * 2 ^ i)"

definition math_Max :: "float64 \<Rightarrow> float64 \<Rightarrow> float64" where
  "math_Max x y = (if float64_less x y then y else x)"

text \<open>The conversion \<open>uint64(f)\<close>: the fraction is discarded.\<close>

fun uint64_of_float64 :: "float64 \<Rightarrow> nat" where
  "uint64_of_float64 (F64 a i) = a div 2 ^ i"

text \<open>
  The constant \<open>gcPercentageTime = 0.1\<close> as a \<open>float64\<close>: the binary64 number nearest
  to one tenth, \<open>3602879701896397 / 2 ^ 55\<close>.
\<close>

definition gcPercentageTime :: float64 where
  "gcPercentageTime = F64 3602879701896397 55"

definition timeLimitSec :: "Config \<Rightarrow> nat" where
  "timeLimitSec cfg =
     uint64_of_float64
       (math_Max (float64_mul (float64_of_uint64 (ExpirationPollIntervalSec cfg)) gcPercentageTime)
                 (F64 1 0))"

text \<open>One iteration of \<open>expireLoop\<close>, at the tick received at time \<open>t\<close>.\<close>

definition expire_tick :: "Node \<Rightarrow> nat \<Rightarrow> Node" where
  "expire_tick n t =
     (let limit = timeLimitSec (Config n);
          (numBatchesDeleted, err) = DeleteExpiredEntries n t limit;
          n1 = logmsg Info ''GC cycle deleted'' (n\<lparr>gc_calls := gc_calls n @ [(t, limit)]\<rparr>)
      in case err of
           None \<Rightarrow> n1
         | Some e \<Rightarrow>
             if errors_Is e DeadlineExceeded
             then logmsg Error ''GC cycle ContextDeadlineExceeded'' n1
             else logmsg Error ''GC cycle had failed to delete some expired entries'' n1)"

text \<open>\<open>expireLoop\<close> over the ticks the ticker has delivered so far.\<close>

fun expireLoop :: "Node \<Rightarrow> nat list \<Rightarrow> Node" where
  "expireLoop n [] = n"
| "expireLoop n (t # ticks) = expireLoop (expire_tick n t) ticks"

section \<open>The fan-out as interleaved steps\<close>

text \<open>
  The jobs of \<open>ValidateBatch\<close> and its collection loop, step by step and in any
  interleaving. \<open>fo_running\<close> are the submitted jobs that have not reported,
  \<open>fo_out\<close> is the buffer of the channel \<open>out\<close> and \<open>fo_cap\<close> its capacity,
  \<open>fo_i\<close> the loop counter, \<open>fo_len\<close> the number of blobs and \<open>fo_ret\<close> the value
  returned once the loop has returned. \<open>Report p\<close> is the send of one running job (the
  pick \<open>p\<close> chooses which, as in \<open>arrival\<close>); it yields \<open>None\<close> when the buffer is
  full, where the job would block. \<open>Collector\<close> is one step of the loop: a receive, or
  the return after the last iteration; on an empty buffer it waits.
\<close>

record 'j fanout =
  fo_running :: "'j list"
  fo_out :: "error option list"
  fo_cap :: nat
  fo_i :: nat
  fo_len :: nat
  fo_ret :: "error option option"

datatype event = Report nat | Collector

definition make_fanout :: "'j list \<Rightarrow> 'j fanout" where
  "make_fanout jobs =
     \<lparr>fo_running = jobs, fo_out = [], fo_cap = length jobs, fo_i = 0, fo_len = length jobs,
      fo_ret = None\<rparr>"

fun fan_step :: "('j \<Rightarrow> error option) \<Rightarrow> 'j fanout \<Rightarrow> event \<Rightarrow> 'j fanout option" where
  "fan_step f s (Report p) =
     (case fo_running s of
        [] \<Rightarrow> Some s
      | x # xs \<Rightarrow>
          (let k = p mod Suc (length xs)
           in if length (fo_out s) < fo_cap s
              then Some (s\<lparr>fo_running := take k (x # xs) @ drop (Suc k) (x # xs),
                           fo_out := fo_out s @ [f ((x # xs) ! k)]\<rparr>)
              else None))"
| "fan_step f s Collector =
     Some (case fo_ret s of
             Some r \<Rightarrow> s
           | None \<Rightarrow>
               if fo_i s < fo_len s
               then (case fo_out s of
                       [] \<Rightarrow> s
                     | r # rest \<Rightarrow>
                         (case r of
                            Some e \<Rightarrow> s\<lparr>fo_out := rest, fo_ret := Some (Some e)\<rparr>
                          | None \<Rightarrow> s\<lparr>fo_out := rest, fo_i := Suc (fo_i s)\<rparr>))
               else s\<lparr>fo_ret := Some None\<rparr>)"

fun fan_run :: "('j \<Rightarrow> error option) \<Rightarrow> 'j fanout \<Rightarrow> event list \<Rightarrow> 'j fanout option" where
  "fan_run f s [] = Some s"
| "fan_run f s (ev # evs) =
     (case fan_step f s ev of None \<Rightarrow> None | Some s' \<Rightarrow> fan_run f s' evs)"

text \<open>The picks of a run: which job reported at each \<open>Report\<close>.\<close>

fun picks :: "event list \<Rightarrow> nat list" where
  "picks [] = []"
| "picks (Report p # evs) = p # picks evs"
| "picks (Collector # evs) = picks evs"

section \<open>What the claims speak of\<close>

definition fetch :: "Node \<Rightarrow> ctx \<Rightarrow> BatchHeader \<Rightarrow> error + OperatorState" where
  "fetch n c header = ChainState n c (ReferenceBlockNumber header) (ID (Config n))"

text \<open>The operator state was fetched.\<close>

definition state_fetched :: "Node \<Rightarrow> ctx \<Rightarrow> BatchHeader \<Rightarrow> bool" where
  "state_fetched n c header = (case fetch n c header of Inl e \<Rightarrow> False | Inr st \<Rightarrow> True)"

text \<open>A blob passed validation: it was validated against the operator state, with no error.\<close>

definition blob_passed :: "Node \<Rightarrow> ctx \<Rightarrow> BatchHeader \<Rightarrow> BlobMessage \<Rightarrow> bool" where
  "blob_passed n c header blob =
     (case fetch n c header of Inl e \<Rightarrow> False | Inr st \<Rightarrow> Validator n blob st = None)"

definition every_blob_passed :: "Node \<Rightarrow> ctx \<Rightarrow> BatchHeader \<Rightarrow> BlobMessage list \<Rightarrow> bool" where
  "every_blob_passed n c header blobs = list_all (blob_passed n c header) blobs"

text \<open>
  What storing the batch comes to: not attempted (no header hash), a fresh write of the
  given keys, the batch already there, or a genuine failure.
\<close>

datatype storage = NotAttempted | Fresh "key list" | AlreadyExists | Failed error

definition storage_outcome ::
  "Node \<Rightarrow> ctx \<Rightarrow> BatchHeader \<Rightarrow> BlobMessage list \<Rightarrow> Blob list \<Rightarrow> storage" where
  "storage_outcome n c header blobs rawBlobs =
     (case GetBatchHeaderHash header of
        Inl e \<Rightarrow> NotAttempted
      | Inr h \<Rightarrow>
          (case fst (StoreBatch (Store n) c header blobs rawBlobs) of
             Inr ks \<Rightarrow> Fresh ks
           | Inl e \<Rightarrow> if e = ErrBatchAlreadyExist then AlreadyExists else Failed e))"

definition storage_succeeded ::
  "Node \<Rightarrow> ctx \<Rightarrow> BatchHeader \<Rightarrow> BlobMessage list \<Rightarrow> Blob list \<Rightarrow> bool" where
  "storage_succeeded n c header blobs rawBlobs =
     (case storage_outcome n c header blobs rawBlobs of
        Fresh ks \<Rightarrow> True | AlreadyExists \<Rightarrow> True | NotAttempted \<Rightarrow> False | Failed e \<Rightarrow> False)"

text \<open>
  What a run from one state of the node to another has recorded; an action that is an
  assignment to \<open>CurrentSocket\<close> made with the mutex held; and a run that has recorded
  nothing but such assignments.
\<close>

definition new_actions :: "Node \<Rightarrow> Node \<Rightarrow> action list" where
  "new_actions n n' = drop (length (trace n)) (trace n')"

fun locked_write :: "action \<Rightarrow> bool" where
  "locked_write (SocketWrite held s) = held"
| "locked_write (Go g) = False"

definition locked_writes :: "Node \<Rightarrow> Node \<Rightarrow> bool" where
  "locked_writes n n' \<longleftrightarrow>
     (\<exists>as. trace n' = trace n @ as \<and> (\<forall>a \<in> set as. locked_write a))"

section \<open>A node to run the code on\<close>

definition cfg0 :: Config where
  "cfg0 = \<lparr>ID = ''op1'', Hostname = ''10.0.0.1'', DispersalPort = ''32005'',
           RetrievalPort = ''32004'', NumBatchValidators = 2, ExpirationPollIntervalSec = 25,
           PubIPCheckInterval = 10, EnableMetrics = False, EnableNodeApi = False,
           RegisterNodeAtStart = True\<rparr>"

definition store0 :: Store where
  "store0 = \<lparr>db = Map.empty, write_fault = None, undeletable = []\<rparr>"

text \<open>
  The chain state of \<open>node0\<close> knows no operator state for block 0; its validator
  rejects the blob whose bundles are \<open>''bad''\<close>; its transactor fails up to time 10 and
  succeeds afterwards.
\<close>

definition node0 :: Node where
  "node0 =
     \<lparr>Config = cfg0, Logger = [], KeyPair = (\<lambda>h. ''signed:'' @ h), Metrics = [],
      Store = store0,
      ChainState = (\<lambda>c blk opid. if blk = 0 then Inl (Err ''no operator state'') else Inr blk),
      Validator = (\<lambda>blob st. if Bundles blob = ''bad'' then Some (Err ''invalid chunk'') else None),
      Transactor = (\<lambda>c s. if now c \<le> 10 then Some (Err ''tx reverted'') else None),
      PubIPProvider = (\<lambda>c. Inr ''203.0.113.7''),
      OperatorSocketsFilterer = (\<lambda>c opid. None),
      RegisterOperator = (\<lambda>c s. None),
      DeleteExpiredEntries = (\<lambda>t limit. (0, None)),
      NodeApi = False, mu = False, CurrentSocket = [], trace = [], gc_calls = []\<rparr>"

definition ctx0 :: ctx where
  "ctx0 = \<lparr>now = 0, cancelled = False\<rparr>"

definition header0 :: BatchHeader where
  "header0 = \<lparr>ReferenceBlockNumber = 7, BatchRoot = ''root'', GetBatchHeaderHash = Inr ''h0''\<rparr>"

definition header_nostate :: BatchHeader where
  "header_nostate = \<lparr>ReferenceBlockNumber = 0, BatchRoot = ''root'', GetBatchHeaderHash = Inr ''h1''\<rparr>"

definition blobA :: BlobMessage where
  "blobA = \<lparr>BlobHeader = \<lparr>EncodedSizeAllQuorums = 64\<rparr>, Bundles = ''chunks-a''\<rparr>"

definition blobB :: BlobMessage where
  "blobB = \<lparr>BlobHeader = \<lparr>EncodedSizeAllQuorums = 32\<rparr>, Bundles = ''bad''\<rparr>"

definition blobC :: BlobMessage where
  "blobC = \<lparr>BlobHeader = \<lparr>EncodedSizeAllQuorums = 16\<rparr>, Bundles = ''chunks-c''\<rparr>"

text \<open>\<open>node0\<close> with a store whose next write fails.\<close>

definition node_wf :: Node where
  "node_wf = node0\<lparr>Store := store0\<lparr>write_fault := Some (Err ''disk full'')\<rparr>\<rparr>"

text \<open>
  \<open>node0\<close> with a store that already holds the batch of hash \<open>''h0''\<close>, and with a
  store in which one key cannot be deleted.
\<close>

definition node_dup :: Node where
  "node_dup = node0\<lparr>Store := store0\<lparr>db := [BatchHeaderKey ''h0'' \<mapsto> HeaderRow 7 ''root'']\<rparr>\<rparr>"

definition node_undel :: Node where
  "node_undel = node0\<lparr>Store := store0\<lparr>undeletable := [BlobKey ''h0'' 0]\<rparr>\<rparr>"

text \<open>\<open>node0\<close> with a registration that fails.\<close>

definition node_noreg :: Node where
  "node_noreg = node0\<lparr>RegisterOperator := (\<lambda>c s. Some (Err ''registration reverted''))\<rparr>"

text \<open>
  \<open>node0\<close> once started, and three poll intervals (of 10) during which the context is
  not cancelled.
\<close>

definition node_run :: Node where
  "node_run = node0\<lparr>CurrentSocket := ''10.0.0.1:32005;32004''\<rparr>"

definition timeline3 :: "(ctx \<times> bool) list" where
  "timeline3 = [(\<lparr>now = 10, cancelled = False\<rparr>, False),
                (\<lparr>now = 20, cancelled = False\<rparr>, False),
                (\<lparr>now = 30, cancelled = False\<rparr>, False)]"

text \<open>
  An interleaving of a batch of three blobs: the second job reports, the loop receives,
  the other two jobs report.
\<close>

definition evs0 :: "event list" where
  "evs0 = [Report 1, Collector, Report 0, Report 0]"

section \<open>Lemmas on the fan-out and on ProcessBatch\<close>

lemma mset_remove_nth:
  "i < length ys \<Longrightarrow> add_mset (ys ! i) (mset (take i ys @ drop (Suc i) ys)) = mset ys"
proof -
  assume "i < length ys"
  then have "ys = take i ys @ (ys ! i) # drop (Suc i) ys" by (rule id_take_nth_drop)
  then have "mset ys = mset (take i ys @ (ys ! i) # drop (Suc i) ys)" by simp
  then show ?thesis by simp
qed

lemma mset_arrival: "mset (arrival ps xs) = mset xs"
proof (induction ps xs rule: arrival.induct)
  case (3 p ps x xs)
  define i where "i = p mod Suc (length xs)"
  have i: "i < length (x # xs)" by (simp add: i_def)
  have "mset (arrival (p # ps) (x # xs)) =
        add_mset ((x # xs) ! i) (mset (arrival ps (take i (x # xs) @ drop (Suc i) (x # xs))))"
    by (simp add: Let_def i_def del: drop_Suc_Cons)
  also have "\<dots> = add_mset ((x # xs) ! i) (mset (take i (x # xs) @ drop (Suc i) (x # xs)))"
    using 3 [of i] by (simp add: i_def)
  also have "\<dots> = mset (x # xs)" using i by (rule mset_remove_nth)
  finally show ?case .
qed simp_all

lemma set_arrival: "set (arrival ps xs) = set xs"
  using mset_arrival [of ps xs] by (metis set_mset_mset)

lemma length_arrival: "length (arrival ps xs) = length xs"
  using mset_arrival [of ps xs] by (metis size_mset)

lemma collect_None: "fst (collect out) = None \<longleftrightarrow> (\<forall>r \<in> set out. r = None)"
  by (induction out) (auto split: option.splits)

lemma collect_first:
  "\<forall>r \<in> set pre. r = None \<Longrightarrow> collect (pre @ Some e # rest) = (Some e, rest)"
  by (induction pre) auto

lemma ValidateBatch_None:
  "ValidateBatch n sched c header blobs = None \<longleftrightarrow>
     state_fetched n c header \<and> every_blob_passed n c header blobs"
  by (cases "fetch n c header")
     (auto simp: ValidateBatch_def submitted_def state_fetched_def every_blob_passed_def job_def
        blob_passed_def fetch_def collect_None set_arrival validateBlob_def list_all_iff
        split: option.splits)

lemma ValidateBatch_frame:
  "Config n' = Config n \<Longrightarrow> ChainState n' = ChainState n \<Longrightarrow> Validator n' = Validator n
     \<Longrightarrow> ValidateBatch n' sched c header blobs = ValidateBatch n sched c header blobs"
  by (simp add: ValidateBatch_def submitted_def validateBlob_def job_def cong: sum.case_cong)

lemma store_goroutine_frame:
  "store_goroutine n c header blobs rawBlobs sz = (r, n') \<Longrightarrow>
     Config n' = Config n \<and> ChainState n' = ChainState n \<and> Validator n' = Validator n
     \<and> KeyPair n' = KeyPair n"
  by (auto simp: store_goroutine_def logmsg_def observe_def Let_def split: prod.splits sum.splits if_splits)

lemma store_goroutine_Store:
  "store_goroutine n c header blobs rawBlobs sz = (r, n') \<Longrightarrow>
     Store n' = snd (StoreBatch (Store n) c header blobs rawBlobs)"
  by (auto simp: store_goroutine_def logmsg_def observe_def Let_def split: prod.splits sum.splits if_splits)

lemma store_goroutine_Logger:
  "store_goroutine n c header blobs rawBlobs sz = (r, n') \<Longrightarrow>
     Logger n' = Logger n @ (if store_keys r = None then [] else [(Debug, ''Store batch took'')])"
  by (auto simp: store_goroutine_def logmsg_def observe_def Let_def split: prod.splits sum.splits if_splits)

lemma store_goroutine_result:
  "GetBatchHeaderHash header = Inr h \<Longrightarrow>
   store_goroutine n c header blobs rawBlobs sz = (r, n') \<Longrightarrow>
     (case storage_outcome n c header blobs rawBlobs of
        Fresh ks \<Rightarrow> r = \<lparr>store_err = None, store_keys = Some ks\<rparr>
      | AlreadyExists \<Rightarrow> r = \<lparr>store_err = None, store_keys = None\<rparr>
      | Failed e \<Rightarrow> r = \<lparr>store_err = Some (Wrap ''failed to store batch: '' e), store_keys = None\<rparr>
      | NotAttempted \<Rightarrow> False)"
  by (auto simp: store_goroutine_def storage_outcome_def Let_def split: prod.splits sum.splits if_splits)

text \<open>\<open>ProcessBatch\<close> past the header hash: the goroutine's result and what it leaves unchanged.\<close>

lemma ProcessBatch_unfold:
  assumes h: "GetBatchHeaderHash header = Inr h"
  shows "\<exists>r n1. store_goroutine (observe (AcceptBatches ''received''
             (sum_list (map (\<lambda>blob. EncodedSizeAllQuorums (BlobHeader blob)) blobs))) n)
            c header blobs rawBlobs
            (sum_list (map (\<lambda>blob. EncodedSizeAllQuorums (BlobHeader blob)) blobs)) = (r, n1)
     \<and> Config n1 = Config n \<and> ChainState n1 = ChainState n \<and> Validator n1 = Validator n
     \<and> KeyPair n1 = KeyPair n
     \<and> Store n1 = snd (StoreBatch (Store n) c header blobs rawBlobs)
     \<and> Logger n1 = Logger n @ (if store_keys r = None then [] else [(Debug, ''Store batch took'')])
     \<and> (case storage_outcome n c header blobs rawBlobs of
          Fresh ks \<Rightarrow> r = \<lparr>store_err = None, store_keys = Some ks\<rparr>
        | AlreadyExists \<Rightarrow> r = \<lparr>store_err = None, store_keys = None\<rparr>
        | Failed e \<Rightarrow> r = \<lparr>store_err = Some (Wrap ''failed to store batch: '' e), store_keys = None\<rparr>
        | NotAttempted \<Rightarrow> False)
     \<and> ValidateBatch n1 sched c header blobs = ValidateBatch n sched c header blobs"
proof -
  define sz where "sz = sum_list (map (\<lambda>blob. EncodedSizeAllQuorums (BlobHeader blob)) blobs)"
  define n0 where "n0 = observe (AcceptBatches ''received'' sz) n"
  obtain r n1 where g: "store_goroutine n0 c header blobs rawBlobs sz = (r, n1)"
    by (cases "store_goroutine n0 c header blobs rawBlobs sz")
  have fr: "Config n1 = Config n" "ChainState n1 = ChainState n" "Validator n1 = Validator n"
    "KeyPair n1 = KeyPair n"
    using store_goroutine_frame [OF g] by (simp_all add: n0_def observe_def)
  have v: "ValidateBatch n1 sched c header blobs = ValidateBatch n sched c header blobs"
    using fr(1-3) by (rule ValidateBatch_frame)
  have so: "storage_outcome n0 c header blobs rawBlobs = storage_outcome n c header blobs rawBlobs"
    by (simp add: storage_outcome_def n0_def observe_def cong: sum.case_cong)
  have st: "Store n1 = snd (StoreBatch (Store n) c header blobs rawBlobs)"
    using store_goroutine_Store [OF g] by (simp add: n0_def observe_def)
  have lg: "Logger n1 = Logger n @ (if store_keys r = None then [] else [(Debug, ''Store batch took'')])"
    using store_goroutine_Logger [OF g] by (simp add: n0_def observe_def)
  note res = store_goroutine_result [OF h g, unfolded so]
  show ?thesis using g fr v st lg res unfolding n0_def sz_def by blast
qed


lemma ProcessBatch_result:
  assumes h: "GetBatchHeaderHash header = Inr h"
  shows "fst (ProcessBatch n sched c header blobs rawBlobs) =
     (case ValidateBatch n sched c header blobs of
        Some e \<Rightarrow> (None, Some (Wrap ''failed to validate batch: '' e))
      | None \<Rightarrow>
          (case storage_outcome n c header blobs rawBlobs of
             Failed e \<Rightarrow> (None, None)
           | _ \<Rightarrow> (Some (KeyPair n h), None)))"
proof -
  from ProcessBatch_unfold [OF h, where n=n and blobs=blobs and c=c and rawBlobs=rawBlobs and sched=sched]
  obtain r n1 where g: "store_goroutine (observe (AcceptBatches ''received''
             (sum_list (map (\<lambda>blob. EncodedSizeAllQuorums (BlobHeader blob)) blobs))) n)
            c header blobs rawBlobs
            (sum_list (map (\<lambda>blob. EncodedSizeAllQuorums (BlobHeader blob)) blobs)) = (r, n1)"
    and kp: "KeyPair n1 = KeyPair n"
    and res: "(case storage_outcome n c header blobs rawBlobs of
          Fresh ks \<Rightarrow> r = \<lparr>store_err = None, store_keys = Some ks\<rparr>
        | AlreadyExists \<Rightarrow> r = \<lparr>store_err = None, store_keys = None\<rparr>
        | Failed e \<Rightarrow> r = \<lparr>store_err = Some (Wrap ''failed to store batch: '' e), store_keys = None\<rparr>
        | NotAttempted \<Rightarrow> False)"
    and v: "ValidateBatch n1 sched c header blobs = ValidateBatch n sched c header blobs"
    by blast
  show ?thesis
  proof (cases "ValidateBatch n sched c header blobs")
    case None
    show ?thesis using h g v None res kp
      by (cases "storage_outcome n c header blobs rawBlobs")
         (simp_all add: ProcessBatch_def Let_def logmsg_def observe_def)
  next
    case (Some e)
    show ?thesis using h g v Some
      by (simp add: ProcessBatch_def Let_def)
  qed
qed

lemma ProcessBatch_no_hash:
  "GetBatchHeaderHash header = Inl e \<Longrightarrow>
     fst (ProcessBatch n sched c header blobs rawBlobs) = (None, Some e)
     \<and> Store (snd (ProcessBatch n sched c header blobs rawBlobs)) = Store n"
  by (simp add: ProcessBatch_def Let_def observe_def)

lemma ProcessBatch_Store:
  assumes h: "GetBatchHeaderHash header = Inr h"
  shows "Store (snd (ProcessBatch n sched c header blobs rawBlobs)) =
     (case ValidateBatch n sched c header blobs of
        None \<Rightarrow> snd (StoreBatch (Store n) c header blobs rawBlobs)
      | Some e \<Rightarrow>
          (case storage_outcome n c header blobs rawBlobs of
             Fresh ks \<Rightarrow> snd (DeleteKeys (snd (StoreBatch (Store n) c header blobs rawBlobs)) c ks)
           | _ \<Rightarrow> snd (StoreBatch (Store n) c header blobs rawBlobs)))"
proof -
  from ProcessBatch_unfold [OF h, where n=n and blobs=blobs and c=c and rawBlobs=rawBlobs and sched=sched]
  obtain r n1 where g: "store_goroutine (observe (AcceptBatches ''received''
             (sum_list (map (\<lambda>blob. EncodedSizeAllQuorums (BlobHeader blob)) blobs))) n)
            c header blobs rawBlobs
            (sum_list (map (\<lambda>blob. EncodedSizeAllQuorums (BlobHeader blob)) blobs)) = (r, n1)"
    and st: "Store n1 = snd (StoreBatch (Store n) c header blobs rawBlobs)"
    and res: "(case storage_outcome n c header blobs rawBlobs of
          Fresh ks \<Rightarrow> r = \<lparr>store_err = None, store_keys = Some ks\<rparr>
        | AlreadyExists \<Rightarrow> r = \<lparr>store_err = None, store_keys = None\<rparr>
        | Failed e \<Rightarrow> r = \<lparr>store_err = Some (Wrap ''failed to store batch: '' e), store_keys = None\<rparr>
        | NotAttempted \<Rightarrow> False)"
    and v: "ValidateBatch n1 sched c header blobs = ValidateBatch n sched c header blobs"
    by blast
  show ?thesis
  proof (cases "ValidateBatch n sched c header blobs")
    case None
    show ?thesis using h g v None res st
      by (cases "storage_outcome n c header blobs rawBlobs")
         (simp_all add: ProcessBatch_def Let_def logmsg_def observe_def)
  next
    case (Some e)
    show ?thesis using h g v Some res st
      by (cases "storage_outcome n c header blobs rawBlobs")
         (simp_all add: ProcessBatch_def Let_def logmsg_def observe_def split: prod.splits)
  qed
qed

lemma ProcessBatch_Logger_rollback:
  assumes h: "GetBatchHeaderHash header = Inr h"
    and f: "storage_outcome n c header blobs rawBlobs = Fresh ks"
    and v: "ValidateBatch n sched c header blobs = Some e"
  shows "Logger (snd (ProcessBatch n sched c header blobs rawBlobs)) =
     Logger n @ [(Debug, ''Store batch took'')] @
       (if fst (DeleteKeys (snd (StoreBatch (Store n) c header blobs rawBlobs)) c ks) then []
        else [(Error, ''Failed to delete the invalid batch that should be rolled back'')])"
proof -
  from ProcessBatch_unfold [OF h, where n=n and blobs=blobs and c=c and rawBlobs=rawBlobs and sched=sched]
  obtain r n1 where g: "store_goroutine (observe (AcceptBatches ''received''
             (sum_list (map (\<lambda>blob. EncodedSizeAllQuorums (BlobHeader blob)) blobs))) n)
            c header blobs rawBlobs
            (sum_list (map (\<lambda>blob. EncodedSizeAllQuorums (BlobHeader blob)) blobs)) = (r, n1)"
    and st: "Store n1 = snd (StoreBatch (Store n) c header blobs rawBlobs)"
    and lg: "Logger n1 = Logger n @ (if store_keys r = None then [] else [(Debug, ''Store batch took'')])"
    and res: "(case storage_outcome n c header blobs rawBlobs of
          Fresh ks \<Rightarrow> r = \<lparr>store_err = None, store_keys = Some ks\<rparr>
        | AlreadyExists \<Rightarrow> r = \<lparr>store_err = None, store_keys = None\<rparr>
        | Failed e \<Rightarrow> r = \<lparr>store_err = Some (Wrap ''failed to store batch: '' e), store_keys = None\<rparr>
        | NotAttempted \<Rightarrow> False)"
    and v': "ValidateBatch n1 sched c header blobs = ValidateBatch n sched c header blobs"
    by blast
  show ?thesis using h g v v' res st lg f
    by (simp add: ProcessBatch_def Let_def logmsg_def split: prod.splits)
qed

lemmas ex_defs = node0_def cfg0_def store0_def ctx0_def header0_def header_nostate_def
  blobA_def blobB_def blobC_def

lemma storage_outcome_fresh:
  "GetBatchHeaderHash header = Inr h \<Longrightarrow> db (Store n) (BatchHeaderKey h) = None \<Longrightarrow>
   write_fault (Store n) = None \<Longrightarrow>
     storage_outcome n c header blobs rawBlobs = Fresh (map fst (batch_rows h header blobs rawBlobs))"
  by (simp add: storage_outcome_def StoreBatch_def Let_def)

lemma storage_outcome_exists:
  "GetBatchHeaderHash header = Inr h \<Longrightarrow> db (Store n) (BatchHeaderKey h) \<noteq> None \<Longrightarrow>
     storage_outcome n c header blobs rawBlobs = AlreadyExists"
  by (auto simp add: storage_outcome_def StoreBatch_def Let_def)

lemma storage_outcome_failed:
  "GetBatchHeaderHash header = Inr h \<Longrightarrow> db (Store n) (BatchHeaderKey h) = None \<Longrightarrow>
   write_fault (Store n) = Some e \<Longrightarrow> e \<noteq> ErrBatchAlreadyExist \<Longrightarrow>
     storage_outcome n c header blobs rawBlobs = Failed e"
  by (simp add: storage_outcome_def StoreBatch_def Let_def)

lemma storage_outcome_attempted:
  "GetBatchHeaderHash header = Inr h \<Longrightarrow>
     storage_outcome n c header blobs rawBlobs \<noteq> NotAttempted"
  by (simp add: storage_outcome_def split: sum.splits)

lemma ProcessBatch_storage_failure:
  "storage_outcome n c header blobs rawBlobs = Failed e \<Longrightarrow>
   ValidateBatch n sched c header blobs = None \<Longrightarrow>
     fst (ProcessBatch n sched c header blobs rawBlobs) = (None, None)"
proof -
  assume f: "storage_outcome n c header blobs rawBlobs = Failed e"
    and v: "ValidateBatch n sched c header blobs = None"
  from f obtain h where h: "GetBatchHeaderHash header = Inr h"
    by (cases "GetBatchHeaderHash header") (simp_all add: storage_outcome_def)
  show ?thesis by (simp add: ProcessBatch_result [OF h] f v)
qed

lemma storage_outcome_Fresh_D:
  assumes "storage_outcome n c header blobs rawBlobs = Fresh ks"
  shows "\<exists>h. GetBatchHeaderHash header = Inr h
    \<and> ks = map fst (batch_rows h header blobs rawBlobs)
    \<and> snd (StoreBatch (Store n) c header blobs rawBlobs) =
        (Store n)\<lparr>db := db (Store n) ++ map_of (batch_rows h header blobs rawBlobs)\<rparr>"
  using assms
  by (auto simp: storage_outcome_def StoreBatch_def Let_def split: sum.splits if_splits option.splits)

lemma written_keys_retrievable:
  assumes "storage_outcome n c header blobs rawBlobs = Fresh ks" "k \<in> set ks"
  shows "retrievable (snd (StoreBatch (Store n) c header blobs rawBlobs)) k"
proof -
  from storage_outcome_Fresh_D [OF assms(1)] obtain h where
    ks: "ks = map fst (batch_rows h header blobs rawBlobs)"
    and s: "snd (StoreBatch (Store n) c header blobs rawBlobs) =
        (Store n)\<lparr>db := db (Store n) ++ map_of (batch_rows h header blobs rawBlobs)\<rparr>"
    by blast
  have "k \<in> dom (map_of (batch_rows h header blobs rawBlobs))"
    using assms(2) ks by (simp add: dom_map_of_conv_image_fst)
  then show ?thesis by (auto simp: retrievable_def s)
qed

lemma DeleteKeys_ok:
  "fst (DeleteKeys s c ks) \<Longrightarrow> k \<in> set ks \<Longrightarrow> \<not> retrievable (snd (DeleteKeys s c ks)) k"
  by (auto simp: DeleteKeys_def retrievable_def list_all_iff)

lemma fresh0B:
  "storage_outcome node0 ctx0 header0 [blobB] [''raw-b'']
     = Fresh [BatchHeaderKey ''h0'', BlobHeaderKey ''h0'' 0, BlobKey ''h0'' 0]"
  by (simp add: storage_outcome_fresh [where h = "''h0''"] batch_rows_def ex_defs)

lemma invalid0B: "ValidateBatch node0 [] ctx0 header0 [blobB] = Some (Err ''invalid chunk'')"
  by (simp add: ValidateBatch_def submitted_def job_def validateBlob_def ex_defs)

section \<open>Signature gating\<close>

text \<open>
  Claim C1, as amended. \<open>ProcessBatch\<close> returns a non-null signature if and only if
  storage succeeded (a fresh write or the already-exists outcome), the operator state
  was fetched and every blob passed validation; in every other case the signature is
  null. Whatever the order in which the validation jobs report.
\<close>

theorem ProcessBatch_signature_gating:
  "fst (fst (ProcessBatch n sched c header blobs rawBlobs)) \<noteq> None \<longleftrightarrow>
     storage_succeeded n c header blobs rawBlobs \<and> state_fetched n c header
     \<and> every_blob_passed n c header blobs"
proof (cases "GetBatchHeaderHash header")
  case (Inl e)
  then show ?thesis
    by (simp add: ProcessBatch_no_hash storage_succeeded_def storage_outcome_def)
next
  case (Inr h)
  show ?thesis
  proof (cases "ValidateBatch n sched c header blobs")
    case None
    then have "state_fetched n c header \<and> every_blob_passed n c header blobs"
      by (simp add: ValidateBatch_None)
    then show ?thesis using None storage_outcome_attempted [OF Inr, of n c blobs rawBlobs]
      by (cases "storage_outcome n c header blobs rawBlobs")
         (simp_all add: ProcessBatch_result [OF Inr] storage_succeeded_def)
  next
    case (Some e)
    then have "\<not> (state_fetched n c header \<and> every_blob_passed n c header blobs)"
      using ValidateBatch_None [of n sched c header blobs] by simp
    then show ?thesis using Some by (simp add: ProcessBatch_result [OF Inr])
  qed
qed

text \<open>The theorem at a batch of two valid blobs, stored afresh.\<close>

theorem ProcessBatch_signature_gating_witness:
  "storage_succeeded node0 ctx0 header0 [blobA, blobC] [''raw-a'', ''raw-c'']
   \<and> state_fetched node0 ctx0 header0
   \<and> every_blob_passed node0 ctx0 header0 [blobA, blobC]
   \<and> fst (fst (ProcessBatch node0 [1, 0] ctx0 header0 [blobA, blobC] [''raw-a'', ''raw-c''])) \<noteq> None"
proof -
  have s: "storage_succeeded node0 ctx0 header0 [blobA, blobC] [''raw-a'', ''raw-c'']"
    by (simp add: storage_succeeded_def storage_outcome_fresh [where h = "''h0''"] ex_defs)
  have f: "state_fetched node0 ctx0 header0"
    by (simp add: state_fetched_def fetch_def ex_defs)
  have p: "every_blob_passed node0 ctx0 header0 [blobA, blobC]"
    by (simp add: every_blob_passed_def blob_passed_def fetch_def ex_defs)
  from s f p show ?thesis
    using ProcessBatch_signature_gating
      [of node0 "[1, 0]" ctx0 header0 "[blobA, blobC]" "[''raw-a'', ''raw-c'']"]
    by blast
qed

text \<open>
  Claim C1 as stated fails on a batch without blobs whose operator state cannot be
  fetched: storage succeeds and every blob (there is none) passed validation, yet
  \<open>ValidateBatch\<close> returns the error of the fetch and no signature is returned.
\<close>

theorem signature_gating_counterexample:
  "\<not> (fst (fst (ProcessBatch node0 [] ctx0 header_nostate [] [])) \<noteq> None \<longleftrightarrow>
        storage_succeeded node0 ctx0 header_nostate [] []
        \<and> every_blob_passed node0 ctx0 header_nostate [])"
proof -
  have h: "GetBatchHeaderHash header_nostate = Inr ''h1''" by (simp add: ex_defs)
  have s: "storage_succeeded node0 ctx0 header_nostate [] []"
    by (simp add: storage_succeeded_def storage_outcome_fresh [where h = "''h1''"] ex_defs)
  have p: "every_blob_passed node0 ctx0 header_nostate []"
    by (simp add: every_blob_passed_def)
  have v: "ValidateBatch node0 [] ctx0 header_nostate [] = Some (Err ''no operator state'')"
    by (simp add: ValidateBatch_def ex_defs)
  have "fst (fst (ProcessBatch node0 [] ctx0 header_nostate [] [])) = None"
    by (simp add: ProcessBatch_result [OF h] v)
  with s p show ?thesis by simp
qed

section \<open>A storage failure after a successful validation\<close>

text \<open>
  Claim C3 at a failing input: every blob passes validation and \<open>StoreBatch\<close> fails
  with a genuine error, and \<open>ProcessBatch\<close> returns a nil signature with a nil error:
  \<open>return nil, err\<close> returns the variable of the validation, which is nil there, not
  \<open>result.err\<close>.
\<close>

theorem ProcessBatch_storage_failure_lost:
  "storage_outcome node_wf ctx0 header0 [blobA] [''raw-a''] = Failed (Err ''disk full'')
   \<and> state_fetched node_wf ctx0 header0
   \<and> every_blob_passed node_wf ctx0 header0 [blobA]
   \<and> fst (ProcessBatch node_wf [0] ctx0 header0 [blobA] [''raw-a'']) = (None, None)"
proof -
  have s: "storage_outcome node_wf ctx0 header0 [blobA] [''raw-a''] = Failed (Err ''disk full'')"
    by (simp add: storage_outcome_failed [where h = "''h0''"] node_wf_def ex_defs)
  have f: "state_fetched node_wf ctx0 header0"
    by (simp add: state_fetched_def fetch_def node_wf_def ex_defs)
  have p: "every_blob_passed node_wf ctx0 header0 [blobA]"
    by (simp add: every_blob_passed_def blob_passed_def fetch_def node_wf_def ex_defs)
  have v: "ValidateBatch node_wf [0] ctx0 header0 [blobA] = None"
    using f p by (simp add: ValidateBatch_None)
  show ?thesis using s f p ProcessBatch_storage_failure [OF s v] by simp
qed

section \<open>Rollback of a fresh write\<close>

text \<open>
  Claim C2, as amended. When storage was a fresh write of the keys \<open>ks\<close> and the
  validation fails with \<open>e\<close>, \<open>ProcessBatch\<close> returns the validation error (wrapped)
  whatever the deletion reports; the keys were retrievable after the write, and the store
  it leaves is the one \<open>DeleteKeys\<close> yields when invoked on exactly \<open>ks\<close>. When the
  deletion reports success none of the keys remains retrievable; when it reports failure
  the failure is logged.
\<close>

theorem rollback_after_failed_validation:
  assumes "storage_outcome n c header blobs rawBlobs = Fresh ks"
    and "ValidateBatch n sched c header blobs = Some e"
  shows "fst (ProcessBatch n sched c header blobs rawBlobs)
           = (None, Some (Wrap ''failed to validate batch: '' e))
    \<and> (\<forall>k \<in> set ks. retrievable (snd (StoreBatch (Store n) c header blobs rawBlobs)) k)
    \<and> Store (snd (ProcessBatch n sched c header blobs rawBlobs))
           = snd (DeleteKeys (snd (StoreBatch (Store n) c header blobs rawBlobs)) c ks)
    \<and> (fst (DeleteKeys (snd (StoreBatch (Store n) c header blobs rawBlobs)) c ks) \<longrightarrow>
         (\<forall>k \<in> set ks. \<not> retrievable (Store (snd (ProcessBatch n sched c header blobs rawBlobs))) k))
    \<and> (\<not> fst (DeleteKeys (snd (StoreBatch (Store n) c header blobs rawBlobs)) c ks) \<longrightarrow>
         (Error, ''Failed to delete the invalid batch that should be rolled back'')
           \<in> set (Logger (snd (ProcessBatch n sched c header blobs rawBlobs))))"
proof -
  from storage_outcome_Fresh_D [OF assms(1)] obtain h where h: "GetBatchHeaderHash header = Inr h"
    by blast
  have r: "fst (ProcessBatch n sched c header blobs rawBlobs)
           = (None, Some (Wrap ''failed to validate batch: '' e))"
    by (simp add: ProcessBatch_result [OF h] assms(2))
  have w: "\<forall>k \<in> set ks. retrievable (snd (StoreBatch (Store n) c header blobs rawBlobs)) k"
    using written_keys_retrievable [OF assms(1)] by blast
  have s: "Store (snd (ProcessBatch n sched c header blobs rawBlobs))
           = snd (DeleteKeys (snd (StoreBatch (Store n) c header blobs rawBlobs)) c ks)"
    by (simp add: ProcessBatch_Store [OF h] assms)
  have d: "fst (DeleteKeys (snd (StoreBatch (Store n) c header blobs rawBlobs)) c ks) \<longrightarrow>
         (\<forall>k \<in> set ks. \<not> retrievable (Store (snd (ProcessBatch n sched c header blobs rawBlobs))) k)"
    unfolding s using DeleteKeys_ok by blast
  have l: "\<not> fst (DeleteKeys (snd (StoreBatch (Store n) c header blobs rawBlobs)) c ks) \<longrightarrow>
         (Error, ''Failed to delete the invalid batch that should be rolled back'')
           \<in> set (Logger (snd (ProcessBatch n sched c header blobs rawBlobs)))"
    by (simp add: ProcessBatch_Logger_rollback [OF h assms])
  from r w s d l show ?thesis by blast
qed

text \<open>The theorem at a batch with one invalid blob, on a store that deletes every key.\<close>

theorem rollback_after_failed_validation_witness:
  "storage_outcome node0 ctx0 header0 [blobB] [''raw-b'']
     = Fresh [BatchHeaderKey ''h0'', BlobHeaderKey ''h0'' 0, BlobKey ''h0'' 0]
   \<and> ValidateBatch node0 [] ctx0 header0 [blobB] = Some (Err ''invalid chunk'')
   \<and> fst (ProcessBatch node0 [] ctx0 header0 [blobB] [''raw-b''])
        = (None, Some (Wrap ''failed to validate batch: '' (Err ''invalid chunk'')))
   \<and> \<not> retrievable (Store (snd (ProcessBatch node0 [] ctx0 header0 [blobB] [''raw-b''])))
          (BlobKey ''h0'' 0)"
proof -
  have ok: "fst (DeleteKeys (snd (StoreBatch (Store node0) ctx0 header0 [blobB] [''raw-b'']))
                  ctx0 [BatchHeaderKey ''h0'', BlobHeaderKey ''h0'' 0, BlobKey ''h0'' 0])"
    by (simp add: DeleteKeys_def StoreBatch_def Let_def ex_defs)
  note t = rollback_after_failed_validation [OF fresh0B invalid0B]
  from t have r: "fst (ProcessBatch node0 [] ctx0 header0 [blobB] [''raw-b''])
        = (None, Some (Wrap ''failed to validate batch: '' (Err ''invalid chunk'')))"
    by blast
  from t ok have "\<forall>k \<in> set [BatchHeaderKey ''h0'', BlobHeaderKey ''h0'' 0, BlobKey ''h0'' 0].
      \<not> retrievable (Store (snd (ProcessBatch node0 [] ctx0 header0 [blobB] [''raw-b'']))) k"
    by blast
  then have "\<not> retrievable (Store (snd (ProcessBatch node0 [] ctx0 header0 [blobB] [''raw-b''])))
          (BlobKey ''h0'' 0)"
    by simp
  with r fresh0B invalid0B show ?thesis by blast
qed

text \<open>
  Claim C2 as stated fails where the deletion fails: the batch was stored afresh, its
  validation fails, and a key of the batch is still retrievable after \<open>ProcessBatch\<close>.
\<close>

theorem rollback_counterexample:
  "storage_outcome node_undel ctx0 header0 [blobB] [''raw-b'']
     = Fresh [BatchHeaderKey ''h0'', BlobHeaderKey ''h0'' 0, BlobKey ''h0'' 0]
   \<and> ValidateBatch node_undel [] ctx0 header0 [blobB] = Some (Err ''invalid chunk'')
   \<and> retrievable (Store (snd (ProcessBatch node_undel [] ctx0 header0 [blobB] [''raw-b''])))
        (BlobKey ''h0'' 0)"
proof -
  have h: "GetBatchHeaderHash header0 = Inr ''h0''" by (simp add: ex_defs)
  have f: "storage_outcome node_undel ctx0 header0 [blobB] [''raw-b'']
     = Fresh [BatchHeaderKey ''h0'', BlobHeaderKey ''h0'' 0, BlobKey ''h0'' 0]"
    by (simp add: storage_outcome_fresh [where h = "''h0''"] batch_rows_def node_undel_def ex_defs)
  have v: "ValidateBatch node_undel [] ctx0 header0 [blobB] = Some (Err ''invalid chunk'')"
    by (simp add: ValidateBatch_def submitted_def job_def validateBlob_def node_undel_def ex_defs)
  have "retrievable (Store (snd (ProcessBatch node_undel [] ctx0 header0 [blobB] [''raw-b''])))
        (BlobKey ''h0'' 0)"
    by (simp add: ProcessBatch_Store [OF h] f v)
       (simp add: retrievable_def DeleteKeys_def StoreBatch_def batch_rows_def Let_def
          node_undel_def ex_defs)
  with f v show ?thesis by simp
qed

section \<open>A batch that is already stored\<close>

text \<open>
  Claim C6. When the header hash is already present in the store, \<open>StoreBatch\<close> reports
  the already-exists outcome, which the goroutine turns into a result with no error and
  no keys; \<open>ProcessBatch\<close> leaves the store as it was (nothing is deleted), and its result
  is decided by the validation: the signature over the header hash if it passes, the
  validation error otherwise.
\<close>

theorem duplicate_batch:
  assumes "GetBatchHeaderHash header = Inr h" and "db (Store n) (BatchHeaderKey h) \<noteq> None"
  shows "StoreBatch (Store n) c header blobs rawBlobs = (Inl ErrBatchAlreadyExist, Store n)
    \<and> fst (store_goroutine n c header blobs rawBlobs sz) = \<lparr>store_err = None, store_keys = None\<rparr>
    \<and> Store (snd (ProcessBatch n sched c header blobs rawBlobs)) = Store n
    \<and> fst (ProcessBatch n sched c header blobs rawBlobs) =
        (case ValidateBatch n sched c header blobs of
           None \<Rightarrow> (Some (KeyPair n h), None)
         | Some e \<Rightarrow> (None, Some (Wrap ''failed to validate batch: '' e)))"
proof -
  have sb: "StoreBatch (Store n) c header blobs rawBlobs = (Inl ErrBatchAlreadyExist, Store n)"
    using assms by (auto simp: StoreBatch_def)
  have so: "storage_outcome n c header blobs rawBlobs = AlreadyExists"
    using assms by (rule storage_outcome_exists)
  have g: "fst (store_goroutine n c header blobs rawBlobs sz) = \<lparr>store_err = None, store_keys = None\<rparr>"
    by (simp add: store_goroutine_def sb)
  have s: "Store (snd (ProcessBatch n sched c header blobs rawBlobs)) = Store n"
    by (simp add: ProcessBatch_Store [OF assms(1)] so sb split: option.splits)
  have r: "fst (ProcessBatch n sched c header blobs rawBlobs) =
        (case ValidateBatch n sched c header blobs of
           None \<Rightarrow> (Some (KeyPair n h), None)
         | Some e \<Rightarrow> (None, Some (Wrap ''failed to validate batch: '' e)))"
    by (simp add: ProcessBatch_result [OF assms(1)] so split: option.splits)
  from sb g s r show ?thesis by blast
qed

text \<open>The theorem on a store holding the batch, with a valid and with an invalid blob.\<close>

theorem duplicate_batch_witness:
  "GetBatchHeaderHash header0 = Inr ''h0'' \<and> db (Store node_dup) (BatchHeaderKey ''h0'') \<noteq> None
   \<and> Store (snd (ProcessBatch node_dup [] ctx0 header0 [blobA] [''raw-a''])) = Store node_dup
   \<and> fst (ProcessBatch node_dup [] ctx0 header0 [blobA] [''raw-a'']) = (Some ''signed:h0'', None)
   \<and> fst (ProcessBatch node_dup [] ctx0 header0 [blobB] [''raw-b''])
        = (None, Some (Wrap ''failed to validate batch: '' (Err ''invalid chunk'')))"
proof -
  have h: "GetBatchHeaderHash header0 = Inr ''h0''" by (simp add: ex_defs)
  have d: "db (Store node_dup) (BatchHeaderKey ''h0'') \<noteq> None" by (simp add: node_dup_def ex_defs)
  have va: "ValidateBatch node_dup [] ctx0 header0 [blobA] = None"
    by (simp add: ValidateBatch_def submitted_def job_def validateBlob_def node_dup_def ex_defs)
  have vb: "ValidateBatch node_dup [] ctx0 header0 [blobB] = Some (Err ''invalid chunk'')"
    by (simp add: ValidateBatch_def submitted_def job_def validateBlob_def node_dup_def ex_defs)
  have k: "KeyPair node_dup ''h0'' = ''signed:h0''" by (simp add: node_dup_def ex_defs)
  show ?thesis
    using duplicate_batch [OF h d, of ctx0 "[blobA]" "[''raw-a'']" 0 "[]"]
      duplicate_batch [OF h d, of ctx0 "[blobB]" "[''raw-b'']" 0 "[]"] h d va vb k
    by simp
qed

section \<open>A batch without blobs\<close>

text \<open>
  Claim C10, as amended. For an empty list of blobs, provided the operator state is
  fetched: no job is submitted to the pool, the validation succeeds whatever the
  validator is, and if storage succeeds the signature over the batch header hash is
  returned.
\<close>

theorem empty_batch:
  assumes "state_fetched n c header"
  shows "submitted n c header [] = []
    \<and> (\<forall>v. ValidateBatch (n\<lparr>Validator := v\<rparr>) sched c header [] = None)
    \<and> ValidateBatch n sched c header [] = None
    \<and> (storage_succeeded n c header [] rawBlobs \<longrightarrow>
         (\<exists>h. GetBatchHeaderHash header = Inr h
            \<and> fst (ProcessBatch n sched c header [] rawBlobs) = (Some (KeyPair n h), None)))"
proof -
  from assms obtain st where st: "ChainState n c (ReferenceBlockNumber header) (ID (Config n)) = Inr st"
    by (auto simp: state_fetched_def fetch_def split: sum.splits)
  have a: "submitted n c header [] = []" by (simp add: submitted_def split: sum.splits)
  have b: "ValidateBatch (n\<lparr>Validator := v\<rparr>) sched c header [] = None" for v
    by (simp add: ValidateBatch_def submitted_def st)
  have v: "ValidateBatch n sched c header [] = None"
    by (simp add: ValidateBatch_def submitted_def st)
  have d: "\<exists>h. GetBatchHeaderHash header = Inr h
            \<and> fst (ProcessBatch n sched c header [] rawBlobs) = (Some (KeyPair n h), None)"
    if s: "storage_succeeded n c header [] rawBlobs"
  proof -
    from s obtain h where h: "GetBatchHeaderHash header = Inr h"
      by (cases "GetBatchHeaderHash header") (simp_all add: storage_succeeded_def storage_outcome_def)
    have "fst (ProcessBatch n sched c header [] rawBlobs) = (Some (KeyPair n h), None)"
      using s by (cases "storage_outcome n c header [] rawBlobs")
        (simp_all add: ProcessBatch_result [OF h] v storage_succeeded_def)
    with h show ?thesis by blast
  qed
  from a b v d show ?thesis by blast
qed

text \<open>The theorem at an empty batch on \<open>node0\<close>.\<close>

theorem empty_batch_witness:
  "state_fetched node0 ctx0 header0 \<and> storage_succeeded node0 ctx0 header0 [] []
   \<and> ValidateBatch node0 [] ctx0 header0 [] = None
   \<and> fst (ProcessBatch node0 [] ctx0 header0 [] []) = (Some ''signed:h0'', None)"
proof -
  have f: "state_fetched node0 ctx0 header0" by (simp add: state_fetched_def fetch_def ex_defs)
  have s: "storage_succeeded node0 ctx0 header0 [] []"
    by (simp add: storage_succeeded_def storage_outcome_fresh [where h = "''h0''"] ex_defs)
  have h: "GetBatchHeaderHash header0 = Inr ''h0''" by (simp add: ex_defs)
  have k: "KeyPair node0 ''h0'' = ''signed:h0''" by (simp add: ex_defs)
  show ?thesis using empty_batch [OF f, of "[]" "[]"] f s h k by auto
qed

text \<open>
  Claim C10 as stated fails where the operator state cannot be fetched: with no blobs,
  the validation fails with the error of the fetch, and although storage succeeded no
  signature is returned.
\<close>

theorem empty_batch_counterexample:
  "ValidateBatch node0 [] ctx0 header_nostate [] = Some (Err ''no operator state'')
   \<and> storage_succeeded node0 ctx0 header_nostate [] []
   \<and> fst (ProcessBatch node0 [] ctx0 header_nostate [] [])
       = (None, Some (Wrap ''failed to validate batch: '' (Err ''no operator state'')))"
proof -
  have h: "GetBatchHeaderHash header_nostate = Inr ''h1''" by (simp add: ex_defs)
  have s: "storage_succeeded node0 ctx0 header_nostate [] []"
    by (simp add: storage_succeeded_def storage_outcome_fresh [where h = "''h1''"] ex_defs)
  have v: "ValidateBatch node0 [] ctx0 header_nostate [] = Some (Err ''no operator state'')"
    by (simp add: ValidateBatch_def ex_defs)
  show ?thesis using s v by (simp add: ProcessBatch_result [OF h])
qed

section \<open>The update of the socket\<close>

text \<open>
  Claim C8. When \<open>updateSocketAddress\<close> is called with a socket that differs from
  \<open>CurrentSocket\<close>: if the update by the transactor fails, the failure is logged and
  \<open>CurrentSocket\<close> is left unchanged; \<open>CurrentSocket\<close> becomes the new socket exactly
  when the update by the transactor succeeds.
\<close>

theorem updateSocketAddress_only_on_success:
  assumes "newSocketAddr \<noteq> CurrentSocket n"
  shows "(\<forall>e. Transactor n c newSocketAddr = Some e \<longrightarrow>
            CurrentSocket (updateSocketAddress n c newSocketAddr) = CurrentSocket n
          \<and> Logger (updateSocketAddress n c newSocketAddr) = Logger n @ [(Error, update_failed_msg)])
    \<and> (CurrentSocket (updateSocketAddress n c newSocketAddr) = newSocketAddr
          \<longleftrightarrow> Transactor n c newSocketAddr = None)"
  using assms
  by (cases "Transactor n c newSocketAddr")
     (auto simp: updateSocketAddress_def Lock_def Unlock_def logmsg_def observe_def
        set_CurrentSocket_def update_failed_msg_def Let_def)

text \<open>The theorem on \<open>node_run\<close>, whose transactor fails at time 0 and succeeds at time 20.\<close>

theorem updateSocketAddress_only_on_success_witness:
  "''203.0.113.7:32005;32004'' \<noteq> CurrentSocket node_run
   \<and> Transactor node_run ctx0 ''203.0.113.7:32005;32004'' = Some (Err ''tx reverted'')
   \<and> CurrentSocket (updateSocketAddress node_run ctx0 ''203.0.113.7:32005;32004'')
        = ''10.0.0.1:32005;32004''
   \<and> Transactor node_run \<lparr>now = 20, cancelled = False\<rparr> ''203.0.113.7:32005;32004'' = None
   \<and> CurrentSocket (updateSocketAddress node_run \<lparr>now = 20, cancelled = False\<rparr> ''203.0.113.7:32005;32004'')
        = ''203.0.113.7:32005;32004''"
proof -
  have d: "''203.0.113.7:32005;32004'' \<noteq> CurrentSocket node_run" by (simp add: node_run_def)
  have f: "Transactor node_run ctx0 ''203.0.113.7:32005;32004'' = Some (Err ''tx reverted'')"
    by (simp add: node_run_def ex_defs)
  have s: "Transactor node_run \<lparr>now = 20, cancelled = False\<rparr> ''203.0.113.7:32005;32004'' = None"
    by (simp add: node_run_def ex_defs)
  have c: "CurrentSocket node_run = ''10.0.0.1:32005;32004''" by (simp add: node_run_def)
  show ?thesis
    using updateSocketAddress_only_on_success [OF d, of ctx0]
      updateSocketAddress_only_on_success [OF d, of "\<lparr>now = 20, cancelled = False\<rparr>"] d f s c
    by simp
qed

section \<open>The writers of the socket and the mutex\<close>

lemma locked_writes_refl: "locked_writes n n"
  by (simp add: locked_writes_def)

lemma locked_writes_trans: "locked_writes a b \<Longrightarrow> locked_writes b d \<Longrightarrow> locked_writes a d"
  by (auto simp: locked_writes_def)

lemma locked_writes_new: "locked_writes n n' \<Longrightarrow> \<forall>a \<in> set (new_actions n n'). locked_write a"
  by (auto simp: locked_writes_def new_actions_def)

lemma updateSocketAddress_locked: "locked_writes n (updateSocketAddress n c a)"
  by (auto simp: locked_writes_def updateSocketAddress_def Lock_def Unlock_def logmsg_def
      observe_def set_CurrentSocket_def Let_def split: option.splits)

lemma watch_loop_locked: "locked_writes n (watch_loop n evs)"
proof (induction n evs rule: watch_loop.induct)
  case (3 n socket evs)
  define n' where "n' = Unlock (if socket \<noteq> CurrentSocket (Lock n)
                then set_CurrentSocket socket
                       (logmsg Info ''Detected socket registered onchain which is different than the socket kept at the DA Node'' (Lock n))
                else Lock n)"
  have "locked_writes n n'"
    by (auto simp: locked_writes_def n'_def Lock_def Unlock_def logmsg_def set_CurrentSocket_def)
  moreover have "locked_writes n' (watch_loop n' evs)"
    using 3 by (simp add: n'_def Let_def)
  ultimately have "locked_writes n (watch_loop n' evs)" by (rule locked_writes_trans)
  then show ?case by (simp add: n'_def Let_def)
qed (simp_all add: locked_writes_refl)

lemma poll_body_locked: "locked_writes n (poll_body n c)"
  by (auto simp: poll_body_def updateSocketAddress_locked split: sum.splits)
     (simp add: locked_writes_def logmsg_def)

lemma poll_loop_locked: "locked_writes n (poll_loop n t timeline)"
proof (induction n t timeline rule: poll_loop.induct)
  case (2 n t c prefer_done rest)
  show ?case
  proof (cases "timer_recv t (now c)")
    case None
    then show ?thesis using 2(1) by (simp add: locked_writes_refl)
  next
    case (Some t')
    have a: "locked_writes n (poll_body n c)" by (rule poll_body_locked)
    show ?thesis
    proof (cases "cancelled c")
      case True
      then show ?thesis using Some a by (simp add: locked_writes_refl Let_def)
    next
      case False
      have "locked_writes (poll_body n c) (poll_loop (poll_body n c) t' rest)"
        using 2(2) [OF Some _ refl] False by simp
      with a have "locked_writes n (poll_loop (poll_body n c) t' rest)"
        by (rule locked_writes_trans)
      then show ?thesis using Some False by (simp add: Let_def)
    qed
  qed
qed (simp add: locked_writes_refl)

lemma Start_trace:
  "trace (snd (Start n c)) = trace n @
     (if fst (Start n c) = None
      then Go ExpireLoop
           # SocketWrite (mu n) (MakeOperatorSocket (Hostname (Config n)) (DispersalPort (Config n))
                                  (RetrievalPort (Config n)))
           # (if 0 < PubIPCheckInterval (Config n)
               then [Go CheckRegisteredNodeIpOnChain, Go CheckCurrentNodeIp] else [])
      else [Go ExpireLoop])"
  by (auto simp: Start_def Start_finish_def set_CurrentSocket_def go_def logmsg_def observe_def
      Let_def split: option.splits)

text \<open>
  Claim C9, as amended. Every assignment to \<open>CurrentSocket\<close> made by
  \<open>updateSocketAddress\<close>, by the local-IP poll and by the on-chain watch loop is made
  while the mutex is held (and these three start no goroutine). \<open>Start\<close> never takes
  the mutex: when the registration succeeds, its one assignment is made with the mutex
  as it was on entry, after \<open>expireLoop\<close> is started and before the two watchers are
  started (which happens only for a positive poll interval); when the registration
  fails, \<open>Start\<close> assigns nothing and starts no watcher.
\<close>

theorem socket_writes_under_mutex:
  "(\<forall>a \<in> set (new_actions n (updateSocketAddress n c s)). locked_write a)
   \<and> (\<forall>a \<in> set (new_actions n (checkCurrentNodeIp n c timeline)). locked_write a)
   \<and> (\<forall>a \<in> set (new_actions n (checkRegisteredNodeIpOnChain n c evs)). locked_write a)
   \<and> (fst (Start n c) = None \<longrightarrow>
        new_actions n (snd (Start n c)) =
          Go ExpireLoop
          # SocketWrite (mu n) (MakeOperatorSocket (Hostname (Config n)) (DispersalPort (Config n))
                                 (RetrievalPort (Config n)))
          # (if 0 < PubIPCheckInterval (Config n)
              then [Go CheckRegisteredNodeIpOnChain, Go CheckCurrentNodeIp] else []))
   \<and> (fst (Start n c) \<noteq> None \<longrightarrow> new_actions n (snd (Start n c)) = [Go ExpireLoop])"
proof -
  have a: "\<forall>a \<in> set (new_actions n (updateSocketAddress n c s)). locked_write a"
    by (rule locked_writes_new [OF updateSocketAddress_locked])
  have b: "\<forall>a \<in> set (new_actions n (checkCurrentNodeIp n c timeline)). locked_write a"
    unfolding checkCurrentNodeIp_def by (rule locked_writes_new [OF poll_loop_locked])
  have "locked_writes n (checkRegisteredNodeIpOnChain n c evs)"
    by (simp add: checkRegisteredNodeIpOnChain_def locked_writes_refl watch_loop_locked
        split: option.splits)
  then have d: "\<forall>a \<in> set (new_actions n (checkRegisteredNodeIpOnChain n c evs)). locked_write a"
    by (rule locked_writes_new)
  have e: "fst (Start n c) = None \<longrightarrow>
        new_actions n (snd (Start n c)) =
          Go ExpireLoop
          # SocketWrite (mu n) (MakeOperatorSocket (Hostname (Config n)) (DispersalPort (Config n))
                                 (RetrievalPort (Config n)))
          # (if 0 < PubIPCheckInterval (Config n)
              then [Go CheckRegisteredNodeIpOnChain, Go CheckCurrentNodeIp] else [])"
    by (simp add: new_actions_def Start_trace)
  have f: "fst (Start n c) \<noteq> None \<longrightarrow> new_actions n (snd (Start n c)) = [Go ExpireLoop]"
    by (simp add: new_actions_def Start_trace)
  from a b d e f show ?thesis by blast
qed

text \<open>
  The theorem on \<open>node_run\<close>, where the watch loop receives a socket and the update
  succeeds; on \<open>node0\<close>, which starts with the mutex free and a positive poll interval;
  and on \<open>node_noreg\<close>, whose registration fails.
\<close>

theorem socket_writes_under_mutex_witness:
  "new_actions node_run (checkRegisteredNodeIpOnChain node_run ctx0 [SocketUpdate ''198.51.100.2:1;2''])
      = [SocketWrite True ''198.51.100.2:1;2'']
   \<and> new_actions node_run (updateSocketAddress node_run \<lparr>now = 20, cancelled = False\<rparr> ''203.0.113.7:32005;32004'')
      = [SocketWrite True ''203.0.113.7:32005;32004'']
   \<and> fst (Start node0 ctx0) = None
   \<and> new_actions node0 (snd (Start node0 ctx0))
        = [Go ExpireLoop, SocketWrite False ''10.0.0.1:32005;32004'',
           Go CheckRegisteredNodeIpOnChain, Go CheckCurrentNodeIp]
   \<and> fst (Start node_noreg ctx0) \<noteq> None
   \<and> new_actions node_noreg (snd (Start node_noreg ctx0)) = [Go ExpireLoop]"
proof -
  have w: "new_actions node_run (checkRegisteredNodeIpOnChain node_run ctx0 [SocketUpdate ''198.51.100.2:1;2''])
      = [SocketWrite (mu (Lock node_run)) ''198.51.100.2:1;2'']"
    by (simp add: new_actions_def checkRegisteredNodeIpOnChain_def Lock_def Unlock_def logmsg_def
        set_CurrentSocket_def Let_def node_run_def ex_defs)
  have u: "new_actions node_run (updateSocketAddress node_run \<lparr>now = 20, cancelled = False\<rparr> ''203.0.113.7:32005;32004'')
      = [SocketWrite (mu (Lock node_run)) ''203.0.113.7:32005;32004'']"
    by (simp add: new_actions_def updateSocketAddress_def Lock_def Unlock_def logmsg_def observe_def
        set_CurrentSocket_def Let_def node_run_def ex_defs)
  have s: "fst (Start node0 ctx0) = None"
    by (simp add: Start_def Start_finish_def set_CurrentSocket_def go_def logmsg_def Let_def ex_defs)
  have r: "fst (Start node_noreg ctx0) \<noteq> None"
    by (simp add: Start_def Start_finish_def set_CurrentSocket_def go_def logmsg_def Let_def
        node_noreg_def ex_defs)
  have m: "mu node0 = False" "0 < PubIPCheckInterval (Config node0)"
    "MakeOperatorSocket (Hostname (Config node0)) (DispersalPort (Config node0))
       (RetrievalPort (Config node0)) = ''10.0.0.1:32005;32004''"
    by (simp_all add: MakeOperatorSocket_def ex_defs)
  note t1 = socket_writes_under_mutex [of node_run "\<lparr>now = 20, cancelled = False\<rparr>"
      "''203.0.113.7:32005;32004''" "[]" "[SocketUpdate ''198.51.100.2:1;2'']"]
  note t2 = socket_writes_under_mutex [of node0 ctx0 "[]" "[]" "[]"]
  note t3 = socket_writes_under_mutex [of node_noreg ctx0 "[]" "[]" "[]"]
  from t1 have "\<forall>a \<in> set (new_actions node_run (updateSocketAddress node_run
      \<lparr>now = 20, cancelled = False\<rparr> ''203.0.113.7:32005;32004'')). locked_write a"
    by blast
  with u have l: "mu (Lock node_run)" by simp
  from w u l have a: "new_actions node_run (checkRegisteredNodeIpOnChain node_run ctx0 [SocketUpdate ''198.51.100.2:1;2''])
      = [SocketWrite True ''198.51.100.2:1;2'']"
    and b: "new_actions node_run (updateSocketAddress node_run \<lparr>now = 20, cancelled = False\<rparr> ''203.0.113.7:32005;32004'')
      = [SocketWrite True ''203.0.113.7:32005;32004'']"
    by simp_all
  from t2 s have "new_actions node0 (snd (Start node0 ctx0)) =
          Go ExpireLoop
          # SocketWrite (mu node0) (MakeOperatorSocket (Hostname (Config node0)) (DispersalPort (Config node0))
                                 (RetrievalPort (Config node0)))
          # (if 0 < PubIPCheckInterval (Config node0)
              then [Go CheckRegisteredNodeIpOnChain, Go CheckCurrentNodeIp] else [])"
    by blast
  then have d: "new_actions node0 (snd (Start node0 ctx0))
        = [Go ExpireLoop, SocketWrite False ''10.0.0.1:32005;32004'',
           Go CheckRegisteredNodeIpOnChain, Go CheckCurrentNodeIp]"
    by (simp add: m)
  from t3 r have e: "new_actions node_noreg (snd (Start node_noreg ctx0)) = [Go ExpireLoop]"
    by blast
  from a b s d r e show ?thesis by blast
qed

text \<open>
  Claim C9 as stated fails for the first of the three writers: \<open>Start\<close> assigns
  \<open>CurrentSocket\<close> while the mutex is not held.
\<close>

theorem Start_write_counterexample:
  "fst (Start node0 ctx0) = None
   \<and> trace (snd (Start node0 ctx0))
        = [Go ExpireLoop, SocketWrite False ''10.0.0.1:32005;32004'',
           Go CheckRegisteredNodeIpOnChain, Go CheckCurrentNodeIp]
   \<and> CurrentSocket (snd (Start node0 ctx0)) = ''10.0.0.1:32005;32004''"
  by (simp add: Start_def Start_finish_def set_CurrentSocket_def go_def logmsg_def observe_def
      Let_def MakeOperatorSocket_def ex_defs)

section \<open>The local-IP poll\<close>

text \<open>Once the timer has fired, the loop only waits for the cancellation.\<close>

lemma poll_loop_Fired: "poll_loop n Fired timeline = n"
  by (induction timeline) auto

text \<open>
  Whatever the instants at which the goroutine runs, the body of the loop runs at most
  once.
\<close>

lemma poll_loop_once:
  "poll_loop n (Pending t) timeline = n
   \<or> (\<exists>c \<in> fst ` set timeline. poll_loop n (Pending t) timeline = poll_body n c)"
proof (induction timeline)
  case Nil
  show ?case by simp
next
  case (Cons a timeline)
  obtain c prefer_done where a: "a = (c, prefer_done)" by (cases a)
  show ?case
  proof (cases "t \<le> now c")
    case True
    then show ?thesis by (auto simp: a Let_def poll_loop_Fired)
  next
    case False
    then show ?thesis using Cons by (auto simp: a)
  qed
qed

text \<open>
  Claim C7 at a failing input: the process runs for three poll intervals without
  cancellation; the update fails at the first interval and would succeed at the second
  (the body run at time 20 sets the new socket). The loop polls at the first interval
  only: after three intervals \<open>CurrentSocket\<close> is unchanged and the log holds the one
  failure. The timer made by \<open>time.NewTimer\<close> fires once and is never reset.
\<close>

theorem poll_fires_once:
  "CurrentSocket (checkCurrentNodeIp node_run ctx0 timeline3) = ''10.0.0.1:32005;32004''
   \<and> Logger (checkCurrentNodeIp node_run ctx0 timeline3) = [(Error, update_failed_msg)]
   \<and> CurrentSocket (poll_body node_run \<lparr>now = 20, cancelled = False\<rparr>) = ''203.0.113.7:32005;32004''"
proof -
  have "checkCurrentNodeIp node_run ctx0 timeline3
          = poll_body node_run \<lparr>now = 10, cancelled = False\<rparr>"
    by (simp add: checkCurrentNodeIp_def NewTimer_def timeline3_def poll_loop_Fired Let_def
        node_run_def ex_defs)
  moreover have "CurrentSocket (poll_body node_run \<lparr>now = 10, cancelled = False\<rparr>) = ''10.0.0.1:32005;32004''"
    by (simp add: poll_body_def socketAddress_def updateSocketAddress_def MakeOperatorSocket_def
        Lock_def Unlock_def logmsg_def Let_def node_run_def ex_defs)
  moreover have "Logger (poll_body node_run \<lparr>now = 10, cancelled = False\<rparr>) = [(Error, update_failed_msg)]"
    by (simp add: poll_body_def socketAddress_def updateSocketAddress_def MakeOperatorSocket_def
        Lock_def Unlock_def logmsg_def Let_def update_failed_msg_def node_run_def ex_defs)
  moreover have "CurrentSocket (poll_body node_run \<lparr>now = 20, cancelled = False\<rparr>) = ''203.0.113.7:32005;32004''"
    by (simp add: poll_body_def socketAddress_def updateSocketAddress_def MakeOperatorSocket_def
        Lock_def Unlock_def logmsg_def observe_def set_CurrentSocket_def Let_def node_run_def ex_defs)
  ultimately show ?thesis by simp
qed

section \<open>The validation fan-out\<close>

text \<open>
  With a buffer as large as the number of jobs still to report and results still to be
  received, no send finds the buffer full.
\<close>

lemma fan_run_total:
  "length (fo_out s) + length (fo_running s) \<le> fo_cap s \<Longrightarrow> fan_run f s evs \<noteq> None"
proof (induction evs arbitrary: s)
  case Nil
  show ?case by simp
next
  case (Cons ev evs)
  show ?case
  proof (cases ev)
    case (Report p)
    show ?thesis
    proof (cases "fo_running s")
      case Nil
      then show ?thesis using Cons Report by simp
    next
      case (Cons x xs)
      define k where "k = p mod Suc (length xs)"
      define s' where "s' = s\<lparr>fo_running := take k (x # xs) @ drop (Suc k) (x # xs),
                           fo_out := fo_out s @ [f ((x # xs) ! k)]\<rparr>"
      have k: "k \<le> length xs" by (simp add: k_def less_Suc_eq_le [symmetric])
      have lt: "length (fo_out s) < fo_cap s" using Cons.prems Cons by simp
      have st: "fan_step f s ev = Some s'"
        using lt Cons Report by (simp add: s'_def k_def Let_def del: drop_Suc_Cons take_Suc_Cons)
      have "length (fo_out s') + length (fo_running s') \<le> fo_cap s'"
        using Cons.prems Cons k by (simp add: s'_def min_def)
      then have "fan_run f s' evs \<noteq> None" by (rule Cons.IH)
      then show ?thesis using st by simp
    qed
  next
    case Collector
    obtain s' where st: "fan_step f s ev = Some s'" using Collector by simp
    have "length (fo_out s') + length (fo_running s') \<le> fo_cap s'"
      using Cons.prems st Collector
      by (auto split: option.splits if_splits list.splits)
    then have "fan_run f s' evs \<noteq> None" by (rule Cons.IH)
    then show ?thesis using st by simp
  qed
qed

lemma fan_run_ret_stable:
  "fo_ret s = Some r \<Longrightarrow> fan_run f s evs = Some s' \<Longrightarrow> fo_ret s' = Some r"
proof (induction evs arbitrary: s)
  case Nil
  then show ?case by simp
next
  case (Cons ev evs)
  from Cons.prems(2) obtain s1 where st: "fan_step f s ev = Some s1" and run: "fan_run f s1 evs = Some s'"
    by (auto split: option.splits)
  have "fo_ret s1 = Some r"
    using st Cons.prems(1) by (cases ev) (auto simp: Let_def split: list.splits if_splits)
  then show ?case using run by (rule Cons.IH)
qed

lemma fan_run_returns:
  "fo_ret s = None \<Longrightarrow> fo_i s + length (fo_out s) + length (fo_running s) = fo_len s \<Longrightarrow>
   fan_run f s evs = Some s' \<Longrightarrow> fo_ret s' = Some r \<Longrightarrow>
     r = fst (collect (fo_out s @ map f (arrival (picks evs) (fo_running s))))"
proof (induction evs arbitrary: s)
  case Nil
  then show ?case by simp
next
  case (Cons ev evs)
  from Cons.prems(3) obtain s1 where st: "fan_step f s ev = Some s1" and run: "fan_run f s1 evs = Some s'"
    by (auto split: option.splits)
  show ?case
  proof (cases ev)
    case (Report p)
    show ?thesis
    proof (cases "fo_running s")
      case Nil
      then have "s1 = s" using st Report by simp
      then have "r = fst (collect (fo_out s @ map f (arrival (picks evs) (fo_running s))))"
        using Cons.IH [OF Cons.prems(1,2) _ Cons.prems(4)] run by simp
      then show ?thesis using Nil Report by simp
    next
      case (Cons x xs)
      define k where "k = p mod Suc (length xs)"
      have k: "k \<le> length xs" by (simp add: k_def less_Suc_eq_le [symmetric])
      have s1: "s1 = s\<lparr>fo_running := take k (x # xs) @ drop (Suc k) (x # xs),
                           fo_out := fo_out s @ [f ((x # xs) ! k)]\<rparr>"
        using st Cons Report
        by (simp add: k_def Let_def del: drop_Suc_Cons take_Suc_Cons split: if_splits)
      have a: "fo_ret s1 = None" using Cons.prems(1) by (simp add: s1)
      have b: "fo_i s1 + length (fo_out s1) + length (fo_running s1) = fo_len s1"
        using Cons.prems(2) Cons k by (simp add: s1 min_def)
      have "r = fst (collect (fo_out s1 @ map f (arrival (picks evs) (fo_running s1))))"
        using a b run Cons.prems(4) by (rule Cons.IH)
      also have "fo_out s1 @ map f (arrival (picks evs) (fo_running s1))
          = fo_out s @ map f (arrival (picks (ev # evs)) (fo_running s))"
        using Cons Report by (simp add: s1 k_def Let_def del: drop_Suc_Cons take_Suc_Cons)
      finally show ?thesis .
    qed
  next
    case Collector
    show ?thesis
    proof (cases "fo_i s < fo_len s")
      case False
      then have "fo_ret s1 = Some None" using st Collector Cons.prems(1) by auto
      then have "fo_ret s' = Some None" using run by (rule fan_run_ret_stable)
      then have "r = None" using Cons.prems(4) by simp
      moreover have "length (fo_out s) = 0 \<and> length (fo_running s) = 0"
        using False Cons.prems(2) by linarith
      then have "fo_out s = []" "fo_running s = []" by simp_all
      ultimately show ?thesis by simp
    next
      case True
      show ?thesis
      proof (cases "fo_out s")
        case Nil
        then have "s1 = s" using st Collector Cons.prems(1) True by auto
        then have "r = fst (collect (fo_out s @ map f (arrival (picks evs) (fo_running s))))"
          using Cons.IH [OF Cons.prems(1,2) _ Cons.prems(4)] run by simp
        then show ?thesis using Collector by simp
      next
        case (Cons r0 rest)
        show ?thesis
        proof (cases r0)
          case (Some e)
          then have "fo_ret s1 = Some (Some e)"
            using st Collector Cons.prems(1) True Cons by auto
          then have "fo_ret s' = Some (Some e)" using run by (rule fan_run_ret_stable)
          then have "r = Some e" using Cons.prems(4) by simp
          then show ?thesis using Cons Some by simp
        next
          case None
          then have s1: "s1 = s\<lparr>fo_out := rest, fo_i := Suc (fo_i s)\<rparr>"
            using st Collector Cons.prems(1) True Cons by auto
          have a: "fo_ret s1 = None" using Cons.prems(1) by (simp add: s1)
          have b: "fo_i s1 + length (fo_out s1) + length (fo_running s1) = fo_len s1"
            using Cons.prems(2) Cons by (simp add: s1)
          have "r = fst (collect (fo_out s1 @ map f (arrival (picks evs) (fo_running s1))))"
            using a b run Cons.prems(4) by (rule Cons.IH)
          then show ?thesis using Cons None Collector by (simp add: s1)
        qed
      qed
    qed
  qed
qed

lemma submitted_fetched:
  "fetch n c header = Inr st \<Longrightarrow> submitted n c header blobs = map (\<lambda>blob. (blob, st)) blobs"
  by (simp add: submitted_def fetch_def)

lemma ValidateBatch_fetched:
  "fetch n c header = Inr st \<Longrightarrow>
     ValidateBatch n sched c header blobs
       = fst (collect (map (job n) (arrival sched (submitted n c header blobs))))"
  by (simp add: ValidateBatch_def fetch_def)

text \<open>
  Claim C5, as amended. \<open>ValidateBatch\<close> returns nil if and only if the operator state
  is fetched and every blob passes validation. When the fetch fails, its error is what
  \<open>ValidateBatch\<close> returns and no job is submitted; when it succeeds, one job is
  submitted for each blob. When the state is fetched and some blob
  fails, the first failing result in the order of arrival is returned, and the results
  that arrive after it are left in the channel, never received. As the channel has the
  capacity of the number of blobs, in no interleaving of the jobs with the loop does a
  job find the channel full; and whenever the loop has returned in such an interleaving,
  it has returned the value of \<open>ValidateBatch\<close> for the order in which the jobs reported.
\<close>

theorem ValidateBatch_fan_out:
  "(ValidateBatch n sched c header blobs = None \<longleftrightarrow>
      state_fetched n c header \<and> every_blob_passed n c header blobs)
   \<and> (\<forall>pre e rest.
        state_fetched n c header
        \<and> map (job n) (arrival sched (submitted n c header blobs)) = pre @ Some e # rest
        \<and> (\<forall>r \<in> set pre. r = None) \<longrightarrow>
          ValidateBatch n sched c header blobs = Some e
          \<and> collect (map (job n) (arrival sched (submitted n c header blobs))) = (Some e, rest))
   \<and> (\<forall>evs. fan_run (job n) (make_fanout (submitted n c header blobs)) evs \<noteq> None)
   \<and> (\<forall>evs s r.
        state_fetched n c header
        \<and> fan_run (job n) (make_fanout (submitted n c header blobs)) evs = Some s
        \<and> fo_ret s = Some r \<longrightarrow>
          r = ValidateBatch n (picks evs) c header blobs)
   \<and> (\<forall>e. fetch n c header = Inl e \<longrightarrow>
          ValidateBatch n sched c header blobs = Some e \<and> submitted n c header blobs = [])
   \<and> (\<forall>st. fetch n c header = Inr st \<longrightarrow>
          submitted n c header blobs = map (\<lambda>blob. (blob, st)) blobs)"
proof -
  have a: "ValidateBatch n sched c header blobs = None \<longleftrightarrow>
      state_fetched n c header \<and> every_blob_passed n c header blobs"
    by (rule ValidateBatch_None)
  have f: "ValidateBatch n sched c header blobs = Some e \<and> submitted n c header blobs = []"
    if "fetch n c header = Inl e" for e
    using that by (simp add: ValidateBatch_def submitted_def fetch_def)
  have g: "submitted n c header blobs = map (\<lambda>blob. (blob, st)) blobs"
    if "fetch n c header = Inr st" for st
    using that by (rule submitted_fetched)
  have b: "ValidateBatch n sched c header blobs = Some e
          \<and> collect (map (job n) (arrival sched (submitted n c header blobs))) = (Some e, rest)"
    if "state_fetched n c header"
      and o: "map (job n) (arrival sched (submitted n c header blobs)) = pre @ Some e # rest"
      and p: "\<forall>r \<in> set pre. r = None" for pre e rest
  proof -
    from that(1) obtain st where st: "fetch n c header = Inr st"
      by (auto simp: state_fetched_def split: sum.splits)
    have "collect (map (job n) (arrival sched (submitted n c header blobs))) = (Some e, rest)"
      unfolding o using p by (rule collect_first)
    then show ?thesis by (simp add: ValidateBatch_fetched [OF st])
  qed
  have d: "fan_run (job n) (make_fanout (submitted n c header blobs)) evs \<noteq> None" for evs
    by (rule fan_run_total) (simp add: make_fanout_def)
  have e: "r = ValidateBatch n (picks evs) c header blobs"
    if "state_fetched n c header"
      and run: "fan_run (job n) (make_fanout (submitted n c header blobs)) evs = Some s"
      and ret: "fo_ret s = Some r" for evs s r
  proof -
    from that(1) obtain st where st: "fetch n c header = Inr st"
      by (auto simp: state_fetched_def split: sum.splits)
    have "r = fst (collect (fo_out (make_fanout (submitted n c header blobs))
              @ map (job n) (arrival (picks evs) (fo_running (make_fanout (submitted n c header blobs))))))"
      by (rule fan_run_returns [OF _ _ run ret]) (simp_all add: make_fanout_def)
    then show ?thesis by (simp add: ValidateBatch_fetched [OF st] make_fanout_def)
  qed
  from a b d e f g show ?thesis by blast
qed

text \<open>
  The theorem at a batch of three blobs whose second blob is invalid and reports first:
  its error is returned and the two other results stay in the channel. And at the same
  batch under a header whose operator state cannot be fetched: the error of the fetch
  is returned and no job is submitted.
\<close>

theorem ValidateBatch_fan_out_witness:
  "state_fetched node0 ctx0 header0
   \<and> map (job node0) (arrival [1] (submitted node0 ctx0 header0 [blobA, blobB, blobC]))
        = [] @ Some (Err ''invalid chunk'') # [None, None]
   \<and> ValidateBatch node0 [1] ctx0 header0 [blobA, blobB, blobC] = Some (Err ''invalid chunk'')
   \<and> collect (map (job node0) (arrival [1] (submitted node0 ctx0 header0 [blobA, blobB, blobC])))
        = (Some (Err ''invalid chunk''), [None, None])
   \<and> (\<exists>s. fan_run (job node0) (make_fanout (submitted node0 ctx0 header0 [blobA, blobB, blobC])) evs0 = Some s
          \<and> fo_ret s = Some (Some (Err ''invalid chunk'')) \<and> fo_out s = [None, None])
   \<and> \<not> every_blob_passed node0 ctx0 header0 [blobA, blobB, blobC]
   \<and> fetch node0 ctx0 header0 = Inr 7
   \<and> fetch node0 ctx0 header_nostate = Inl (Err ''no operator state'')
   \<and> ValidateBatch node0 [1] ctx0 header_nostate [blobA, blobB, blobC]
        = Some (Err ''no operator state'')
   \<and> submitted node0 ctx0 header_nostate [blobA, blobB, blobC] = []"
proof -
  have fi: "fetch node0 ctx0 header0 = Inr 7" by (simp add: fetch_def ex_defs)
  have fe: "fetch node0 ctx0 header_nostate = Inl (Err ''no operator state'')"
    by (simp add: fetch_def ex_defs)
  from ValidateBatch_fan_out [of node0 "[1]" ctx0 header_nostate "[blobA, blobB, blobC]"] fe
  have nf: "ValidateBatch node0 [1] ctx0 header_nostate [blobA, blobB, blobC]
              = Some (Err ''no operator state'')
            \<and> submitted node0 ctx0 header_nostate [blobA, blobB, blobC] = []"
    by blast
  have f: "state_fetched node0 ctx0 header0" by (simp add: state_fetched_def fetch_def ex_defs)
  from ValidateBatch_fan_out [of node0 "[1]" ctx0 header0 "[blobA, blobB, blobC]"] fi
  have "submitted node0 ctx0 header0 [blobA, blobB, blobC]
          = map (\<lambda>blob. (blob, 7)) [blobA, blobB, blobC]"
    by blast
  then have sub: "submitted node0 ctx0 header0 [blobA, blobB, blobC] = [(blobA, 7), (blobB, 7), (blobC, 7)]"
    by simp
  have j: "job node0 (blobA, 7) = None" "job node0 (blobB, 7) = Some (Err ''invalid chunk'')"
    "job node0 (blobC, 7) = None"
    by (simp_all add: job_def validateBlob_def ex_defs)
  have o: "map (job node0) (arrival [1] (submitted node0 ctx0 header0 [blobA, blobB, blobC]))
        = [] @ Some (Err ''invalid chunk'') # [None, None]"
    by (simp add: sub j Let_def)
  have run: "fan_run (job node0) (make_fanout (submitted node0 ctx0 header0 [blobA, blobB, blobC])) evs0
      = Some \<lparr>fo_running = [], fo_out = [None, None], fo_cap = 3, fo_i = 0, fo_len = 3,
               fo_ret = Some (Some (Err ''invalid chunk''))\<rparr>"
    by (simp add: sub j make_fanout_def evs0_def Let_def)
  note t = ValidateBatch_fan_out [of node0 "[1]" ctx0 header0 "[blobA, blobB, blobC]"]
  have p: "\<forall>r \<in> set ([] :: error option list). r = None" by simp
  from t have b: "state_fetched node0 ctx0 header0
        \<and> map (job node0) (arrival [1] (submitted node0 ctx0 header0 [blobA, blobB, blobC]))
             = [] @ Some (Err ''invalid chunk'') # [None, None]
        \<and> (\<forall>r \<in> set ([] :: error option list). r = None) \<longrightarrow>
          ValidateBatch node0 [1] ctx0 header0 [blobA, blobB, blobC] = Some (Err ''invalid chunk'')
          \<and> collect (map (job node0) (arrival [1] (submitted node0 ctx0 header0 [blobA, blobB, blobC])))
              = (Some (Err ''invalid chunk''), [None, None])"
    by blast
  from b f o p have v: "ValidateBatch node0 [1] ctx0 header0 [blobA, blobB, blobC] = Some (Err ''invalid chunk'')
     \<and> collect (map (job node0) (arrival [1] (submitted node0 ctx0 header0 [blobA, blobB, blobC])))
        = (Some (Err ''invalid chunk''), [None, None])"
    by blast
  from t have "ValidateBatch node0 [1] ctx0 header0 [blobA, blobB, blobC] = None \<longleftrightarrow>
      state_fetched node0 ctx0 header0 \<and> every_blob_passed node0 ctx0 header0 [blobA, blobB, blobC]"
    by blast
  with v f have n: "\<not> every_blob_passed node0 ctx0 header0 [blobA, blobB, blobC]" by simp
  from run have "\<exists>s. fan_run (job node0) (make_fanout (submitted node0 ctx0 header0 [blobA, blobB, blobC])) evs0 = Some s
          \<and> fo_ret s = Some (Some (Err ''invalid chunk'')) \<and> fo_out s = [None, None]"
    by simp
  with f o v n fi fe nf show ?thesis by blast
qed

text \<open>
  Claim C5 as stated fails on a batch without blobs whose operator state cannot be
  fetched: every blob (there is none) passes validation, and \<open>ValidateBatch\<close> returns
  the error of the fetch.
\<close>

theorem ValidateBatch_counterexample:
  "\<not> (ValidateBatch node0 [] ctx0 header_nostate [] = None
        \<longleftrightarrow> every_blob_passed node0 ctx0 header_nostate [])"
proof -
  have "ValidateBatch node0 [] ctx0 header_nostate [] = Some (Err ''no operator state'')"
    by (simp add: ValidateBatch_def ex_defs)
  moreover have "every_blob_passed node0 ctx0 header_nostate []"
    by (simp add: every_blob_passed_def)
  ultimately show ?thesis by simp
qed

section \<open>The budget of the sweeper\<close>

text \<open>
  The rounding at work: in \<open>float64\<close>, three times \<open>0.1\<close> is
  \<open>0.30000000000000004\<close>, that is \<open>10808639105689192 / 2 ^ 55\<close>.
\<close>

lemma floorlog_eqI: "2 ^ w \<le> x \<Longrightarrow> x < 2 ^ Suc w \<Longrightarrow> floorlog 2 x = Suc w"
proof -
  assume a: "2 ^ w \<le> x" and b: "x < 2 ^ Suc w"
  have "floorlog 2 x \<le> Suc w" using b by (intro floorlog_leI) simp_all
  moreover have "Suc w \<le> floorlog 2 x" using a by (intro floorlog_ge_SucI) simp_all
  ultimately show ?thesis by simp
qed

lemma floorlog_three_tenths: "floorlog 2 10808639105689191 = 54"
  using floorlog_eqI [of 53 10808639105689191] by simp

lemma float64_three_tenths:
  "float64_mul (float64_of_uint64 3) gcPercentageTime = F64 10808639105689192 55"
  by (simp add: float64_of_uint64_def gcPercentageTime_def round53_def floorlog_three_tenths Let_def)

text \<open>
  A rounded significand is at least the significand cut to 53 bits, and exceeds the
  exact value by at most half a unit in the last place, hence by at most one part in
  \<open>2 ^ 53\<close>.
\<close>

lemma round53_small: "m < 2 ^ 53 \<Longrightarrow> round53 m = m"
  by (simp add: round53_def)

lemma round53_cases:
  assumes "\<not> m < 2 ^ 53"
  defines "s \<equiv> floorlog 2 m - 53"
  shows "round53 m = (m div 2 ^ s) * 2 ^ s \<or>
         (round53 m = (m div 2 ^ s + 1) * 2 ^ s \<and> 2 ^ (s - 1) \<le> m mod 2 ^ s)"
  using assms(1) unfolding round53_def s_def Let_def
  by (auto simp: not_less)

lemma round53_shift:
  assumes "\<not> m < (2::nat) ^ 53"
  shows "1 \<le> floorlog 2 m - 53" and "2 ^ (floorlog 2 m - 53 + 52) \<le> m"
proof -
  have m: "(2::nat) ^ 53 \<le> m" using assms by simp
  have "54 \<le> floorlog 2 m" using floorlog_geI [of 2 54 m] m by simp
  then show "1 \<le> floorlog 2 m - 53" by simp
  have "(2::nat) ^ (floorlog 2 m - 1) \<le> m"
    using floorlog_bounds [of m 2] m by (cases "m = 0") simp_all
  moreover have "floorlog 2 m - 53 + 52 = floorlog 2 m - 1" using \<open>54 \<le> floorlog 2 m\<close> by simp
  ultimately show "2 ^ (floorlog 2 m - 53 + 52) \<le> m" by simp
qed

lemma round53_lower: "(m div 2 ^ (floorlog 2 m - 53)) * 2 ^ (floorlog 2 m - 53) \<le> round53 m"
proof (cases "m < 2 ^ 53")
  case True
  have "(m div 2 ^ (floorlog 2 m - 53)) * 2 ^ (floorlog 2 m - 53) \<le> m" by simp
  then show ?thesis using True by (simp add: round53_small)
next
  case False
  from round53_cases [OF False] show ?thesis by auto
qed

lemma round53_upper: "2 ^ 53 * round53 m \<le> m * (2 ^ 53 + 1)"
proof (cases "m < 2 ^ 53")
  case True
  then show ?thesis by (simp add: round53_small)
next
  case False
  define s where "s = floorlog 2 m - 53"
  have s1: "1 \<le> s" and big: "2 ^ (s + 52) \<le> m"
    using round53_shift [OF False] by (simp_all add: s_def)
  have pw: "(2::nat) ^ s = 2 * 2 ^ (s - 1)" using s1 by (cases s) simp_all
  have le: "round53 m \<le> m + 2 ^ (s - 1)"
  proof -
    from round53_cases [OF False]
    consider "round53 m = (m div 2 ^ s) * 2 ^ s"
      | "round53 m = (m div 2 ^ s + 1) * 2 ^ s" "2 ^ (s - 1) \<le> m mod 2 ^ s"
      by (auto simp: s_def)
    then show ?thesis
    proof cases
      case 1
      then have "round53 m \<le> m" by simp
      then show ?thesis by simp
    next
      case 2
      have "round53 m = (m div 2 ^ s) * 2 ^ s + 2 ^ s" using 2(1) by simp
      also have "\<dots> = (m div 2 ^ s) * 2 ^ s + 2 ^ (s - 1) + 2 ^ (s - 1)" using pw by simp
      also have "\<dots> \<le> (m div 2 ^ s) * 2 ^ s + m mod 2 ^ s + 2 ^ (s - 1)" using 2(2) by simp
      also have "\<dots> = m + 2 ^ (s - 1)" by (simp only: div_mult_mod_eq)
      finally show ?thesis .
    qed
  qed
  have e: "53 + (s - 1) = s + 52" using s1 by simp
  have "(2::nat) ^ 53 * 2 ^ (s - 1) = 2 ^ (53 + (s - 1))" by (rule power_add [symmetric])
  then have "(2::nat) ^ 53 * 2 ^ (s - 1) = 2 ^ (s + 52)" by (simp only: e)
  then have half: "(2::nat) ^ 53 * 2 ^ (s - 1) \<le> m" using big by simp
  have "2 ^ 53 * round53 m \<le> 2 ^ 53 * (m + 2 ^ (s - 1))" using le by (rule mult_le_mono2)
  also have "\<dots> = 2 ^ 53 * m + 2 ^ 53 * 2 ^ (s - 1)" by (rule add_mult_distrib2)
  also have "\<dots> \<le> 2 ^ 53 * m + m" using half by simp
  also have "\<dots> = m * (2 ^ 53 + 1)" by simp
  finally show ?thesis .
qed

lemma floor_to_multiple:
  assumes "a * 2 ^ t \<le> (n::nat)" and "s \<le> t"
  shows "a * 2 ^ t \<le> (n div 2 ^ s) * 2 ^ s"
proof -
  have p: "(2::nat) ^ t = 2 ^ (t - s) * 2 ^ s"
    using assms(2) by (simp add: power_add [symmetric])
  have "a * 2 ^ (t - s) * 2 ^ s \<le> n" using assms(1) by (simp add: p mult.assoc)
  then have "a * 2 ^ (t - s) \<le> n div 2 ^ s" by (simp add: less_eq_div_iff_mult_less_eq)
  then have "a * 2 ^ (t - s) * 2 ^ s \<le> (n div 2 ^ s) * 2 ^ s" by (rule mult_le_mono1)
  then show ?thesis by (simp add: p mult.assoc)
qed

lemma budget_lower:
  assumes "P < 2 ^ 52"
  shows "(P div 10) * 2 ^ 55 \<le> round53 (P * 3602879701896397)"
proof -
  define k where "k = P div 10"
  define N where "N = P * 3602879701896397"
  have k: "10 * k \<le> P" by (simp add: k_def)
  have kN: "k * 2 ^ 55 \<le> N" using k by (simp add: N_def)
  have "N < 2 ^ 104" using assms by (simp add: N_def)
  then have "floorlog 2 N \<le> 104" by (intro floorlog_leI) simp_all
  then have s: "floorlog 2 N - 53 \<le> 55" by simp
  have "k * 2 ^ 55 \<le> (N div 2 ^ (floorlog 2 N - 53)) * 2 ^ (floorlog 2 N - 53)"
    using kN s by (rule floor_to_multiple)
  also have "\<dots> \<le> round53 N" by (rule round53_lower)
  finally show ?thesis by (simp only: k_def N_def)
qed

lemma budget_upper:
  assumes "P < 2 ^ 52"
  shows "round53 (P * 3602879701896397) < (P div 10 + 1) * 2 ^ 55"
proof -
  define k where "k = P div 10"
  define N where "N = P * 3602879701896397"
  define r where "r = round53 N"
  have k: "P \<le> 10 * k + 9" unfolding k_def by presburger
  have kb: "10 * k < 2 ^ 52" using assms unfolding k_def by simp
  have N: "N \<le> (10 * k + 9) * 3602879701896397" unfolding N_def using k by simp
  have "2 ^ 53 * r \<le> N * (2 ^ 53 + 1)" unfolding r_def by (rule round53_upper)
  then have "9007199254740992 * r \<le> N * 9007199254740993" by simp
  with N kb have "r < (k + 1) * 36028797018963968" by simp
  then show ?thesis by (simp add: r_def N_def k_def)
qed

lemma timeLimitSec_value:
  assumes "ExpirationPollIntervalSec cfg < 2 ^ 52"
  shows "timeLimitSec cfg = max (ExpirationPollIntervalSec cfg div 10) 1"
proof -
  define P where "P = ExpirationPollIntervalSec cfg"
  define r where "r = round53 (P * 3602879701896397)"
  have P: "P < 2 ^ 52" using assms by (simp add: P_def)
  then have "P < 2 ^ 53" by simp
  then have rp: "round53 P = P" by (rule round53_small)
  have lo: "(P div 10) * 2 ^ 55 \<le> r" unfolding r_def using P by (rule budget_lower)
  have up: "r < (P div 10 + 1) * 2 ^ 55" unfolding r_def using P by (rule budget_upper)
  have t: "timeLimitSec cfg = (if r < 2 ^ 55 then 1 else r div 2 ^ 55)"
    by (simp add: timeLimitSec_def float64_of_uint64_def gcPercentageTime_def math_Max_def
        rp P_def [symmetric] r_def [symmetric])
  have d: "r div 2 ^ 55 = P div 10"
    using lo up by (intro div_nat_eqI) (simp_all add: mult.commute)
  show ?thesis
  proof (cases "P div 10 = 0")
    case True
    then have "r < 2 ^ 55" using up by simp
    then show ?thesis using True by (simp add: t P_def)
  next
    case False
    then have "1 * 2 ^ 55 \<le> (P div 10) * (2::nat) ^ 55" by (intro mult_le_mono1) simp
    then have "\<not> r < 2 ^ 55" using lo by simp
    then show ?thesis using False d by (simp add: t P_def)
  qed
qed

lemma expire_tick_effect:
  "Config (expire_tick n t) = Config n
   \<and> gc_calls (expire_tick n t) = gc_calls n @ [(t, timeLimitSec (Config n))]"
  by (simp add: expire_tick_def logmsg_def Let_def split: prod.splits option.splits)

lemma expireLoop_gc_calls:
  "gc_calls (expireLoop n ticks) = gc_calls n @ map (\<lambda>t. (t, timeLimitSec (Config n))) ticks"
  by (induction ticks arbitrary: n) (simp_all add: expire_tick_effect)

lemma floor_budget:
  "\<lfloor>max (0.1 * real P) 1\<rfloor> = int (max (P div 10) 1)"
proof -
  have "\<lfloor>real P / real 10\<rfloor> = int (P div 10)" by (rule floor_divide_of_nat_eq)
  then have f: "\<lfloor>0.1 * real P\<rfloor> = int (P div 10)" by simp
  show ?thesis
  proof (cases "P < 10")
    case True
    then have "max (0.1 * real P) 1 = 1" by simp
    then show ?thesis using True by simp
  next
    case False
    then have "max (0.1 * real P) 1 = 0.1 * real P" by simp
    moreover have "1 \<le> P div 10" using False by simp
    ultimately show ?thesis using f by simp
  qed
qed

text \<open>
  For large intervals the rounding reaches the integer part: at \<open>2 ^ 63\<close> seconds
  the budget is not \<open>P div 10\<close>.
\<close>

lemma timeLimitSec_large:
  "timeLimitSec (cfg0\<lparr>ExpirationPollIntervalSec := 2 ^ 63\<rparr>) = 922337203685477632
   \<and> (2::nat) ^ 63 div 10 = 922337203685477580"
proof -
  have a: "floorlog 2 9223372036854775808 = Suc 63" by (rule floorlog_eqI) simp_all
  have r: "round53 9223372036854775808 = 9223372036854775808"
    by (simp add: round53_def a Let_def)
  have b: "floorlog 2 33230699894622898667269583877963776 = Suc 114"
    by (rule floorlog_eqI) simp_all
  have q: "round53 33230699894622898667269583877963776 = 33230699894622898667269583877963776"
    by (simp add: round53_def b Let_def)
  show ?thesis
    by (simp add: timeLimitSec_def float64_of_uint64_def gcPercentageTime_def math_Max_def r q)
qed

text \<open>
  Claim C4, as amended. For every positive poll interval \<open>P\<close> below \<open>2 ^ 52\<close>
  seconds, the time budget the sweeper passes to \<open>DeleteExpiredEntries\<close> on each tick
  is the whole number of seconds \<open>max (P div 10) 1\<close>, the integer part of
  \<open>max (0.1 * P) 1\<close>.
\<close>

theorem gc_budget:
  assumes "0 < ExpirationPollIntervalSec (Config n)"
    and "ExpirationPollIntervalSec (Config n) < 2 ^ 52"
  shows "gc_calls (expireLoop n ticks) = gc_calls n @ map (\<lambda>t. (t, timeLimitSec (Config n))) ticks
    \<and> timeLimitSec (Config n) = max (ExpirationPollIntervalSec (Config n) div 10) 1
    \<and> int (timeLimitSec (Config n)) = \<lfloor>max (0.1 * real (ExpirationPollIntervalSec (Config n))) 1\<rfloor>"
proof -
  have a: "gc_calls (expireLoop n ticks) = gc_calls n @ map (\<lambda>t. (t, timeLimitSec (Config n))) ticks"
    by (rule expireLoop_gc_calls)
  have b: "timeLimitSec (Config n) = max (ExpirationPollIntervalSec (Config n) div 10) 1"
    using assms(2) by (rule timeLimitSec_value)
  have "int (timeLimitSec (Config n)) = \<lfloor>max (0.1 * real (ExpirationPollIntervalSec (Config n))) 1\<rfloor>"
    unfolding b by (rule floor_budget [symmetric])
  with a b show ?thesis by blast
qed

text \<open>The theorem at the poll interval of 25 seconds of \<open>node0\<close>, over two ticks.\<close>

theorem gc_budget_witness:
  "0 < ExpirationPollIntervalSec (Config node0) \<and> ExpirationPollIntervalSec (Config node0) < 2 ^ 52
   \<and> gc_calls (expireLoop node0 [25, 50]) = [(25, 2), (50, 2)]"
proof -
  have p: "ExpirationPollIntervalSec (Config node0) = 25" by (simp add: ex_defs)
  have a: "0 < ExpirationPollIntervalSec (Config node0)" by (simp add: p)
  have b: "ExpirationPollIntervalSec (Config node0) < 2 ^ 52" by (simp add: p)
  have g: "gc_calls node0 = []" by (simp add: ex_defs)
  from gc_budget [OF a b, of "[25, 50]"]
  have "gc_calls (expireLoop node0 [25, 50])
          = gc_calls node0 @ map (\<lambda>t. (t, timeLimitSec (Config node0))) [25, 50]"
    and "timeLimitSec (Config node0) = max (ExpirationPollIntervalSec (Config node0) div 10) 1"
    by blast+
  then have "gc_calls (expireLoop node0 [25, 50]) = [(25, 2), (50, 2)]"
    by (simp add: p g)
  with a b show ?thesis by blast
qed

text \<open>
  Claim C4 as stated fails at a poll interval of 25 seconds: \<open>max (0.1 * 25) 1\<close> is
  two seconds and a half, and the budget passed is 2 seconds, the conversion to
  \<open>uint64\<close> discarding the fraction.
\<close>

theorem gc_budget_counterexample:
  "gc_calls (expireLoop node0 [25]) = [(25, 2)]
   \<and> max (0.1 * real (ExpirationPollIntervalSec (Config node0))) 1 = 5 / 2"
proof -
  have p: "ExpirationPollIntervalSec (Config node0) = 25" by (simp add: ex_defs)
  have t: "timeLimitSec (Config node0) = 2" by (simp add: timeLimitSec_value p)
  have g: "gc_calls node0 = []" by (simp add: ex_defs)
  have "gc_calls (expireLoop node0 [25]) = [(25, 2)]"
    unfolding expireLoop_gc_calls t g by simp
  then show ?thesis by (simp add: p)
qed

end
